theory Spec2Isabelle
  imports Main "HOL-Library.Word" "HOL-Library.Signed_Division"
begin

unbundle bit_operations_syntax

section \<open>Common data: errors, machine integers, the consensus store\<close>

text \<open>
  Every error return and every panic of the Go source is a value of this type. The
  constructors follow the places where the source builds an error.
\<close>

datatype error =
    EtcdError                 \<comment> \<open>the store client returned \<open>err \<noteq> nil\<close>\<close>
  | InvalidGetResp            \<comment> \<open>"invalid get leader resp ..., must only one"\<close>
  | InvalidTimestampData      \<comment> \<open>"invalid timestamp data, must 8 bytes"\<close>
  | ClockNotAfterSaved        \<comment> \<open>"... <= last saved time ..."\<close>
  | SaveTimestampFailed       \<comment> \<open>"save timestamp failed, maybe we lost leader"\<close>
  | AllocError                \<comment> \<open>\<open>idAlloc.Alloc\<close> failed\<close>
  | MarshalError              \<comment> \<open>\<open>proto.Marshal\<close> failed\<close>
  | PostJobFail               \<comment> \<open>"post job ... fail"\<close>
  | PopJobFailed              \<comment> \<open>"pop first job failed" (also used by updateJobStatus)\<close>
  | NoStoreToAddPeer          \<comment> \<open>"find no store to add peer for region ..."\<close>
  | RpcFailed                 \<comment> \<open>"[pd] rpc failed: ..."\<close>
  | TsoFieldNotSet            \<comment> \<open>"[pd] tso filed in rpc response not set"\<close>
  | TsoLengthIncorrect        \<comment> \<open>"[pd] tso length in rpc response is incorrect"\<close>
  | GetMetaFieldNotSet        \<comment> \<open>"[pd] GetMeta filed in rpc response not set"\<close>
  | RegionFieldNotSet         \<comment> \<open>"[pd] Region filed in rpc response not set"\<close>
  | NetworkError              \<comment> \<open>GetNode, dial, write or read failed in callCommand\<close>
  | InvalidCommandResponse    \<comment> \<open>"invalid command response message but ..."\<close>
  | GetRegionLeaderFailed     \<comment> \<open>"get region ... leader failed, got resp ..."\<close>
  | GetRegionDetailFailed     \<comment> \<open>"get region ... detail failed, got resp ..."\<close>
  | UpdateRegionFailed        \<comment> \<open>"update change peer region failed"\<close>
  | SendRaftCommandFailed     \<comment> \<open>"send raft command ... failed"\<close>
  | Stopped                   \<comment> \<open>a sentinel handed to \<open>stop\<close> by the client\<close>
  | Panic                     \<comment> \<open>a Go run-time panic (nil dereference, failed type assertion,
                                  close of a closed channel)\<close>

type_synonym byte = "8 word"

text \<open>
  Go's \<open>int64\<close> arithmetic wraps around. Values are kept as \<open>int\<close> and the
  \<open>int64\<close> operations of the timestamp oracle are followed by \<open>int64\<close>, the two's
  complement wrap.
  Go's \<open>/\<close> on integers truncates towards zero: it is \<open>sdiv\<close>.
\<close>

definition int64 :: "int \<Rightarrow> int" where
  "int64 x = (x + 2 ^ 63) mod 2 ^ 64 - 2 ^ 63"

text \<open>
  A \<open>time.Time\<close> is modelled by its wall clock reading, the number of nanoseconds
  since the Unix epoch, and its monotonic clock reading in nanoseconds: every value of
  \<open>time.Now()\<close> carries one, the zero \<open>Time\<close> does not. \<open>Sub\<close> is \<open>Time.Sub\<close>:
  when both times carry a monotonic reading it is the difference of these readings
  alone, else the difference of the wall clock readings; the result is a \<open>Duration\<close>
  (an \<open>int64\<close> of nanoseconds) and saturates at the largest and smallest duration.
  \<open>UnixNano\<close> reads the wall clock.
\<close>

record Time =
  wall_ns :: int
  mono_ns :: "int option"

definition maxDuration :: int where "maxDuration = 2 ^ 63 - 1"
definition minDuration :: int where "minDuration = - (2 ^ 63)"

definition Sub :: "Time \<Rightarrow> Time \<Rightarrow> int" where
  "Sub t u =
     (let d = (case (mono_ns t, mono_ns u) of
                 (Some a, Some b) \<Rightarrow> a - b
               | _ \<Rightarrow> wall_ns t - wall_ns u)
      in if d > maxDuration then maxDuration else if d < minDuration then minDuration else d)"

definition UnixNano :: "Time \<Rightarrow> int" where
  "UnixNano t = int64 (wall_ns t)"

text \<open>A value of \<open>time.Now()\<close>, and the zero \<open>Time\<close> (1 January of year 1, UTC).\<close>

definition Now :: "int \<Rightarrow> int \<Rightarrow> Time" where
  "Now w m = \<lparr>wall_ns = w, mono_ns = Some m\<rparr>"

definition zero_Time :: Time where
  "zero_Time = \<lparr>wall_ns = - 62135596800000000000, mono_ns = None\<rparr>"

text \<open>
  The consensus store, as far as the modelled code reads and writes it. The value under
  the key \<^verbatim>\<open>timestamp\<close> is kept as the \<open>int64\<close> whose 8-byte big-endian encoding
  \<open>saveTimestamp\<close> writes; the jobs under the keys \<^verbatim>\<open>jobs/id\<close> are kept by id and the
  regions under the keys \<^verbatim>\<open>region_search/end_key\<close> by end key, as association
  lists. \<open>leader_rev\<close> is the create revision of the leader key.
\<close>

datatype JobStatus = Pending | Running

datatype AdminCommandType = InvalidAdmin | ChangePeer | Split

datatype StatusCommandType = InvalidStatus | RegionLeaderCmd | RegionDetailCmd

datatype ConfChangeType = AddNode | RemoveNode

record Peer =
  peer_id :: nat
  node_id :: nat
  store_id :: nat

record Region =
  region_id :: nat
  end_key :: "byte list"
  Peers :: "Peer list"

text \<open>
  Messages hold their sub-messages by pointer: a field that can be nil is an option.
\<close>

record ChangePeerRequest =
  ChangeType :: ConfChangeType
  cpr_Peer :: "Peer option"
  cpr_Region :: "Region option"

record AdminRequest =
  CmdType :: AdminCommandType
  ChangePeer_req :: "ChangePeerRequest option"

record RaftCommandRequest =
  header_peer :: "Peer option"       \<comment> \<open>\<open>Header.Peer\<close>, the peer the command is sent to\<close>
  header_region_id :: nat            \<comment> \<open>\<open>Header.RegionId\<close>\<close>
  AdminRequest_of :: "AdminRequest option"
  StatusRequest_of :: "StatusCommandType option"

record Job =
  JobId :: nat
  Status :: "JobStatus option"
  Request :: "RaftCommandRequest option"

record etcd =
  leader_rev :: nat
  timestamp_key :: "int option"
  jobs :: "(nat \<times> Job) list"
  region_search :: "(byte list \<times> Region) list"

text \<open>
  A transaction \<open>Txn().If(cmp).Then(op).Commit()\<close>: the client call can fail (\<open>net\<close> is
  False), else the comparison is evaluated on the store and the operation applied only
  when it holds; \<open>Succeeded\<close> is the value of the comparison.
\<close>

definition Txn :: "bool \<Rightarrow> (etcd \<Rightarrow> bool) \<Rightarrow> (etcd \<Rightarrow> etcd) \<Rightarrow> etcd \<Rightarrow> (error + bool) \<times> etcd" where
  "Txn net If_cmp Then_op kv =
     (if \<not> net then (Inl EtcdError, kv)
      else if If_cmp kv then (Inr True, Then_op kv)
      else (Inr False, kv))"

section \<open>The timestamp oracle (server/tso.go)\<close>

definition updateTimestampStep :: int where "updateTimestampStep = 10"
definition maxLogical :: int where "maxLogical = 2 ^ 18"
definition maxRetryNum :: nat where "maxRetryNum = 100"

record atomicObject =
  physical :: Time
  logical :: int

record Timestamp =
  Physical :: int
  Logical :: int

record Server =
  LeaderLease :: int                \<comment> \<open>\<open>cfg.LeaderLease\<close>, seconds\<close>
  own_rev :: nat                    \<comment> \<open>the revision \<open>leaderCmp\<close> compares the leader key with\<close>
  ts :: "atomicObject option"       \<comment> \<open>\<open>s.ts\<close>, an \<open>atomic.Value\<close>; None before the first Store\<close>
  lastSavedTime :: Time
  client :: etcd

text \<open>
  Modelled from the spec: \<open>leaderCmp\<close> is not among the sources. Section 4.7: a
  comparison asserting that the create revision of the leader key is the server's own.
\<close>

definition leaderCmp :: "Server \<Rightarrow> etcd \<Rightarrow> bool" where
  "leaderCmp s kv = (leader_rev kv = own_rev s)"

definition BigEndian_Uint64 :: "byte list \<Rightarrow> 64 word" where
  "BigEndian_Uint64 b =
     ucast (b ! 7) OR push_bit 8 (ucast (b ! 6)) OR push_bit 16 (ucast (b ! 5))
     OR push_bit 24 (ucast (b ! 4)) OR push_bit 32 (ucast (b ! 3))
     OR push_bit 40 (ucast (b ! 2)) OR push_bit 48 (ucast (b ! 1))
     OR push_bit 56 (ucast (b ! 0))"

text \<open>
  \<open>loadTimestamp\<close>, on the answer of the \<open>Get\<close>: an error of the client, or the list
  \<open>resp.Kvs\<close> of the values found.
\<close>

definition loadTimestamp :: "error + byte list list \<Rightarrow> error + int" where
  "loadTimestamp resp =
     (case resp of
        Inl e \<Rightarrow> Inl e
      | Inr Kvs \<Rightarrow>
          if length Kvs = 0 then Inr 0
          else if length Kvs > 1 then Inl InvalidGetResp
          else let data = Kvs ! 0 in
            if length data \<noteq> 8 then Inl InvalidTimestampData
            else Inr (sint (BigEndian_Uint64 data)))"

definition saveTimestamp :: "bool \<Rightarrow> Time \<Rightarrow> Server \<Rightarrow> (error + unit) \<times> Server" where
  "saveTimestamp net now s =
     (case Txn net (leaderCmp s) (\<lambda>kv. kv\<lparr>timestamp_key := Some (UnixNano now)\<rparr>) (client s) of
        (Inl e, kv) \<Rightarrow> (Inl e, s\<lparr>client := kv\<rparr>)
      | (Inr succeeded, kv) \<Rightarrow>
          if \<not> succeeded then (Inl SaveTimestampFailed, s\<lparr>client := kv\<rparr>)
          else (Inr (), s\<lparr>client := kv, lastSavedTime := now\<rparr>))"

text \<open>
  The waiting loop of \<open>syncTimestamp\<close>. The list holds the successive readings of
  \<open>time.Now()\<close>, one per iteration (the loop sleeps between two readings). None: the
  readings are used up and the loop is still waiting.
\<close>

fun sync_wait :: "int \<Rightarrow> int \<Rightarrow> Time list \<Rightarrow> (error + Time) option" where
  "sync_wait lease last0 [] = None"
| "sync_wait lease last0 (now # clock) =
     (let since = int64 (UnixNano now - last0) sdiv 1000000 in
      if since \<le> 0 then Some (Inl ClockNotAfterSaved)
      else if int64 (int64 (int64 (2 * lease) * 1000) - since) > 0
        then sync_wait lease last0 clock
      else Some (Inr now))"

definition syncTimestamp ::
  "error + byte list list \<Rightarrow> Time list \<Rightarrow> bool \<Rightarrow> Server \<Rightarrow> ((error + unit) \<times> Server) option" where
  "syncTimestamp resp clock net s =
     (case loadTimestamp resp of
        Inl e \<Rightarrow> Some (Inl e, s)
      | Inr last0 \<Rightarrow>
         (case sync_wait (LeaderLease s) last0 clock of
            None \<Rightarrow> None
          | Some (Inl e) \<Rightarrow> Some (Inl e, s)
          | Some (Inr now) \<Rightarrow>
             (case saveTimestamp net now s of
                (Inl e, s') \<Rightarrow> Some (Inl e, s')
              | (Inr u, s') \<Rightarrow>
                  Some (Inr (), s'\<lparr>ts := Some \<lparr>physical = now, logical = 0\<rparr>\<rparr>))))"

text \<open>
  \<open>updateTimestamp\<close> at the reading \<open>now\<close> of the clock. Both guards are
  \<open>Time.Sub\<close> of two values of \<open>time.Now()\<close>, that is differences of monotonic
  readings; what is stored, saved and issued is the wall clock. The type assertion on
  \<open>s.ts.Load()\<close> has no \<open>ok\<close>: it panics when nothing was stored yet. The warning
  logged when \<open>since\<close> exceeds \<open>2 * updateTimestampStep\<close> changes nothing and is left
  out.
\<close>

definition updateTimestamp :: "Time \<Rightarrow> bool \<Rightarrow> Server \<Rightarrow> (error + unit) \<times> Server" where
  "updateTimestamp now net s =
     (case ts s of
        None \<Rightarrow> (Inl Panic, s)
      | Some prev \<Rightarrow>
          let since = Sub now (physical prev) sdiv 1000000 in
          if since \<le> 0 then (Inr (), s)
          else if Sub now (lastSavedTime s) sdiv 1000000 > int64 (LeaderLease s * 1000) then
            (case saveTimestamp net now s of
               (Inl e, s') \<Rightarrow> (Inl e, s')
             | (Inr u, s') \<Rightarrow> (Inr (), s'\<lparr>ts := Some \<lparr>physical = now, logical = 0\<rparr>\<rparr>))
          else (Inr (), s\<lparr>ts := Some \<lparr>physical = now, logical = 0\<rparr>\<rparr>))"

text \<open>
  One iteration of the loop of \<open>getRespTS\<close>: None when the iteration ends in
  \<open>continue\<close> (nothing synced yet, or the logical part used up). \<open>atomic.AddInt64\<close>
  wraps around like every \<open>int64\<close> addition.
\<close>

definition getRespTS_attempt :: "Server \<Rightarrow> Timestamp option \<times> Server" where
  "getRespTS_attempt s =
     (case ts s of
        None \<Rightarrow> (None, s)
      | Some current \<Rightarrow>
          let l = int64 (logical current + 1);
              s' = s\<lparr>ts := Some (current\<lparr>logical := l\<rparr>)\<rparr>;
              resp = \<lparr>Physical = UnixNano (physical current) sdiv 1000000, Logical = l\<rparr>
          in if l \<ge> maxLogical then (None, s') else (Some resp, s'))"

text \<open>
  The updater runs beside \<open>getRespTS\<close>: \<open>ticks\<close> lists, for each sleep of the loop, the
  calls of \<open>updateTimestamp\<close> (clock reading, outcome of the client call) that happen
  during it.
\<close>

fun run_ticks :: "(Time \<times> bool) list \<Rightarrow> Server \<Rightarrow> Server" where
  "run_ticks [] s = s"
| "run_ticks ((now, net) # rest) s = run_ticks rest (snd (updateTimestamp now net s))"

fun getRespTS_loop :: "nat \<Rightarrow> (Time \<times> bool) list list \<Rightarrow> Server \<Rightarrow> Timestamp option \<times> Server" where
  "getRespTS_loop 0 ticks s = (None, s)"
| "getRespTS_loop (Suc n) ticks s =
     (case getRespTS_attempt s of
        (Some resp, s') \<Rightarrow> (Some resp, s')
      | (None, s') \<Rightarrow>
          (case ticks of
             [] \<Rightarrow> getRespTS_loop n [] s'
           | t # rest \<Rightarrow> getRespTS_loop n rest (run_ticks t s')))"

definition getRespTS :: "(Time \<times> bool) list list \<Rightarrow> Server \<Rightarrow> Timestamp option \<times> Server" where
  "getRespTS ticks s = getRespTS_loop maxRetryNum ticks s"

text \<open>
  A leader process after \<open>syncTimestamp\<close>: the updater ticks, clients ask for
  timestamps, and the leader key of the store may change under the process. \<open>run\<close>
  returns the timestamps issued, oldest first, and the final state.
\<close>

datatype event =
    Tick Time bool
  | GetTS "(Time \<times> bool) list list"
  | LeaderChange nat

fun step :: "event \<Rightarrow> Server \<Rightarrow> Timestamp list \<times> Server" where
  "step (Tick now net) s = ([], snd (updateTimestamp now net s))"
| "step (GetTS ticks) s =
     (case getRespTS ticks s of (None, s') \<Rightarrow> ([], s') | (Some r, s') \<Rightarrow> ([r], s'))"
| "step (LeaderChange r) s = ([], s\<lparr>client := (client s)\<lparr>leader_rev := r\<rparr>\<rparr>)"

fun run :: "event list \<Rightarrow> Server \<Rightarrow> Timestamp list \<times> Server" where
  "run [] s = ([], s)"
| "run (e # es) s =
     (case step e s of (out, s') \<Rightarrow> (case run es s' of (out', s'') \<Rightarrow> (out @ out', s'')))"

text \<open>The order on timestamps: lexicographic on \<open>(physical, logical)\<close>.\<close>

definition ts_less :: "Timestamp \<Rightarrow> Timestamp \<Rightarrow> bool" where
  "ts_less a b = (Physical a < Physical b \<or> (Physical a = Physical b \<and> Logical a < Logical b))"

subsection \<open>Well-formed inputs and the invariant of the leader process\<close>

text \<open>
  The wall clock readings lie between the Unix epoch and the end of the \<open>int64\<close>
  nanosecond range; the lease is a number of seconds whose multiples by 2000 fit an \<open>int64\<close>.
\<close>

definition clock_ok :: "Time \<Rightarrow> bool" where
  "clock_ok t = (0 \<le> wall_ns t \<and> wall_ns t < 2 ^ 63)"

definition lease_ok :: "int \<Rightarrow> bool" where
  "lease_ok l = (0 \<le> l \<and> l < 2 ^ 50)"

text \<open>
  The clock is steady when the wall clock is never set: every reading of \<open>time.Now()\<close>
  then has the same difference \<open>d\<close> between its wall clock and its monotonic reading.
\<close>

definition steady :: "int \<Rightarrow> Time \<Rightarrow> bool" where
  "steady d t = (clock_ok t \<and> mono_ns t = Some (wall_ns t - d))"

fun event_ok :: "int \<Rightarrow> event \<Rightarrow> bool" where
  "event_ok d (Tick now net) = steady d now"
| "event_ok d (GetTS ticks) = list_all (list_all (\<lambda>(now, net). steady d now)) ticks"
| "event_ok d (LeaderChange r) = True"

definition phys_t :: "Server \<Rightarrow> Time" where
  "phys_t s = (case ts s of None \<Rightarrow> zero_Time | Some c \<Rightarrow> physical c)"

definition phys :: "Server \<Rightarrow> int" where
  "phys s = wall_ns (phys_t s)"

definition saved :: "Server \<Rightarrow> int" where
  "saved s = wall_ns (lastSavedTime s)"

definition logi :: "Server \<Rightarrow> int" where
  "logi s = (case ts s of None \<Rightarrow> 0 | Some c \<Rightarrow> logical c)"

definition phys_ms :: "Server \<Rightarrow> int" where
  "phys_ms s = phys s div 1000000"

definition synced :: "int \<Rightarrow> Server \<Rightarrow> bool" where
  "synced d s = (ts s \<noteq> None \<and> lease_ok (LeaderLease s) \<and> steady d (phys_t s)
     \<and> steady d (lastSavedTime s) \<and> timestamp_key (client s) = Some (saved s)
     \<and> saved s \<le> phys s
     \<and> phys s - saved s < (LeaderLease s * 1000 + 1) * 1000000)"

text \<open>\<open>within k s\<close>: \<open>k\<close> more increments do not wrap the logical counter of \<open>s\<close>.\<close>

definition within :: "nat \<Rightarrow> Server \<Rightarrow> bool" where
  "within k s = (0 \<le> logi s \<and> logi s + int k < 2 ^ 63)"

definition adv :: "Server \<Rightarrow> Server \<Rightarrow> bool" where
  "adv s s' = (LeaderLease s' = LeaderLease s \<and> saved s \<le> saved s' \<and>
     (phys_ms s < phys_ms s' \<or> (phys_ms s = phys_ms s' \<and> logi s \<le> logi s')))"

definition ts_above :: "Server \<Rightarrow> Timestamp \<Rightarrow> bool" where
  "ts_above s T = (phys_ms s < Physical T \<or> (phys_ms s = Physical T \<and> logi s < Logical T))"

definition ts_below :: "Timestamp \<Rightarrow> Server \<Rightarrow> bool" where
  "ts_below T s = (Physical T < phys_ms s \<or> (Physical T = phys_ms s \<and> Logical T \<le> logi s))"

subsection \<open>Concrete leader processes\<close>

text \<open>
  In the processes 1, 2 and 4 and in \<open>tso_events\<close> the wall clock is 6 s ahead of the
  monotonic clock, in the processes 3 and 5 it is 5 s ahead. Process 6 is process 1
  after one timestamp, and process 7 what follows when the wall clock is then set back
  by one second and the updater ticks 20 ms later. Process 8 is what follows process 1
  when the wall clock is set forward by ten seconds and the updater ticks 20 ms later,
  process 9 what follows process 3 when the wall clock is set back by five seconds and
  the updater ticks 20 ms later.
\<close>

definition tso_server0 :: Server where
  "tso_server0 = \<lparr>LeaderLease = 3, own_rev = 1, ts = None, lastSavedTime = zero_Time,
     client = \<lparr>leader_rev = 1, timestamp_key = None, jobs = [], region_search = []\<rparr>\<rparr>"

definition tso_server1 :: Server where
  "tso_server1 = \<lparr>LeaderLease = 3, own_rev = 1,
     ts = Some \<lparr>physical = Now 7000000000 1000000000, logical = 0\<rparr>, lastSavedTime = Now 7000000000 1000000000,
     client = \<lparr>leader_rev = 1, timestamp_key = Some 7000000000, jobs = [], region_search = []\<rparr>\<rparr>"

definition tso_server2 :: Server where
  "tso_server2 = \<lparr>LeaderLease = 3, own_rev = 1,
     ts = Some \<lparr>physical = Now 7020000000 1020000000, logical = 1\<rparr>, lastSavedTime = Now 7000000000 1000000000,
     client = \<lparr>leader_rev = 1, timestamp_key = Some 7000000000, jobs = [], region_search = []\<rparr>\<rparr>"

definition tso_server3 :: Server where
  "tso_server3 = \<lparr>LeaderLease = 3, own_rev = 1,
     ts = Some \<lparr>physical = Now 12000000000 7000000000, logical = 0\<rparr>, lastSavedTime = Now 12000000000 7000000000,
     client = \<lparr>leader_rev = 1, timestamp_key = Some 12000000000, jobs = [], region_search = []\<rparr>\<rparr>"


definition tso_events :: "event list" where
  "tso_events = [GetTS [], GetTS [], Tick (Now 7000500000 1000500000) True, GetTS [], Tick (Now 7020000000 1020000000) True,
     GetTS [], LeaderChange 2, Tick (Now 11020000000 5020000000) True, GetTS []]"

definition tso_server4 :: Server where
  "tso_server4 = \<lparr>LeaderLease = 3, own_rev = 1,
     ts = Some \<lparr>physical = Now 7020000000 1020000000, logical = 2\<rparr>, lastSavedTime = Now 7000000000 1000000000,
     client = \<lparr>leader_rev = 2, timestamp_key = Some 7000000000, jobs = [], region_search = []\<rparr>\<rparr>"

definition tso_server6 :: Server where
  "tso_server6 = \<lparr>LeaderLease = 3, own_rev = 1,
     ts = Some \<lparr>physical = Now 7000000000 1000000000, logical = 1\<rparr>,
     lastSavedTime = Now 7000000000 1000000000,
     client = \<lparr>leader_rev = 1, timestamp_key = Some 7000000000, jobs = [], region_search = []\<rparr>\<rparr>"

definition tso_server7 :: Server where
  "tso_server7 = \<lparr>LeaderLease = 3, own_rev = 1,
     ts = Some \<lparr>physical = Now 6020000000 1020000000, logical = 1\<rparr>,
     lastSavedTime = Now 7000000000 1000000000,
     client = \<lparr>leader_rev = 1, timestamp_key = Some 7000000000, jobs = [], region_search = []\<rparr>\<rparr>"

definition tso_server8 :: Server where
  "tso_server8 = \<lparr>LeaderLease = 3, own_rev = 1,
     ts = Some \<lparr>physical = Now 17020000000 1020000000, logical = 1\<rparr>,
     lastSavedTime = Now 7000000000 1000000000,
     client = \<lparr>leader_rev = 1, timestamp_key = Some 7000000000, jobs = [], region_search = []\<rparr>\<rparr>"

definition tso_server9 :: Server where
  "tso_server9 = \<lparr>LeaderLease = 3, own_rev = 1,
     ts = Some \<lparr>physical = Now 7020000000 7020000000, logical = 1\<rparr>,
     lastSavedTime = Now 12000000000 7000000000,
     client = \<lparr>leader_rev = 1, timestamp_key = Some 12000000000, jobs = [], region_search = []\<rparr>\<rparr>"

section \<open>The client's RPC worker (package pd, worker of the client)\<close>

text \<open>
  A request of the client carries a completion channel \<open>done\<close>. The channel is
  modelled by the list of the values sent on it, oldest first; \<open>None\<close> is Go's \<open>nil\<close>
  error. The worker holds the requests by pointer and writes their fields in place: the
  model returns the batch with every request at its place, updated.
\<close>

record tsoRequest =
  tso_done :: "error option list"
  req_physical :: int
  req_logical :: int

record regionRequest =
  req_key :: "byte list"
  region_done :: "error option list"
  req_region :: "Region option"

text \<open>
  The queue holds values of type \<open>interface{}\<close>: the two request types, or anything
  else (\<open>OtherReq\<close>, the \<open>default\<close> branch of the type switches).
\<close>

datatype request = TsoReq tsoRequest | RegionReq regionRequest | OtherReq

text \<open>
  The connection. \<open>sent\<close> logs the requests written to it, oldest first. \<open>script\<close> is
  what the network and the server do at each round trip, in order: the write fails, or
  the request is written and the read fails, or the request is written and a response
  is read. With the script used up, the request is written and no answer comes before
  the read deadline.
\<close>

datatype wire_request = Tso "32 word" | GetMeta "byte list"

record Response =
  resp_tso :: "Timestamp list option"            \<comment> \<open>\<open>rsp.GetTso()\<close> and its timestamps\<close>
  resp_get_meta :: "Region option option"        \<comment> \<open>\<open>rsp.GetGetMeta()\<close> and its region\<close>

datatype io = WriteFails | ReadFails | Reply Response

record conn =
  sent :: "wire_request list"
  script :: "io list"

text \<open>
  One round trip: \<open>WriteMessage\<close>, \<open>Flush\<close>, \<open>ReadMessage\<close>. Both failures give the
  error "[pd] rpc failed". The number of a \<open>TsoRequest\<close> is a \<open>uint32\<close>:
  \<open>uint32(n)\<close> is \<open>of_nat n\<close>, which wraps around at \<open>2 ^ 32\<close>.
\<close>

definition round_trip :: "wire_request \<Rightarrow> conn \<Rightarrow> (error + Response) \<times> conn" where
  "round_trip req c =
     (case script c of
        [] \<Rightarrow> (Inl RpcFailed, c\<lparr>sent := sent c @ [req]\<rparr>)
      | WriteFails # rest \<Rightarrow> (Inl RpcFailed, c\<lparr>script := rest\<rparr>)
      | ReadFails # rest \<Rightarrow> (Inl RpcFailed, c\<lparr>sent := sent c @ [req], script := rest\<rparr>)
      | Reply rsp # rest \<Rightarrow> (Inr rsp, c\<lparr>sent := sent c @ [req], script := rest\<rparr>))"

definition getTSFromRemote :: "conn \<Rightarrow> nat \<Rightarrow> (error + Timestamp list) \<times> conn" where
  "getTSFromRemote c n =
     (case round_trip (Tso (of_nat n)) c of
        (Inl e, c') \<Rightarrow> (Inl e, c')
      | (Inr rsp, c') \<Rightarrow>
          (case resp_tso rsp of
             None \<Rightarrow> (Inl TsoFieldNotSet, c')
           | Some timestamps \<Rightarrow>
               if length timestamps \<noteq> n then (Inl TsoLengthIncorrect, c')
               else (Inr timestamps, c')))"

definition getRegionFromRemote :: "conn \<Rightarrow> byte list \<Rightarrow> (error + Region) \<times> conn" where
  "getRegionFromRemote c k =
     (case round_trip (GetMeta k) c of
        (Inl e, c') \<Rightarrow> (Inl e, c')
      | (Inr rsp, c') \<Rightarrow>
          (case resp_get_meta rsp of
             None \<Rightarrow> (Inl GetMetaFieldNotSet, c')
           | Some None \<Rightarrow> (Inl RegionFieldNotSet, c')
           | Some (Some region) \<Rightarrow> (Inr region, c')))"

text \<open>
  The first loop of \<open>handleRequests\<close>: region requests are served one by one, timestamp
  requests are only collected. It returns the batch, the connection and \<open>ok\<close>.
\<close>

fun first_loop :: "request list \<Rightarrow> conn \<Rightarrow> bool \<Rightarrow> request list \<times> conn \<times> bool" where
  "first_loop [] c ok = ([], c, ok)"
| "first_loop (TsoReq r # requests) c ok =
     (case first_loop requests c ok of (rs, c', ok') \<Rightarrow> (TsoReq r # rs, c', ok'))"
| "first_loop (RegionReq r # requests) c ok =
     (case getRegionFromRemote c (req_key r) of
        (Inl err, c1) \<Rightarrow>
          (case first_loop requests c1 False of
             (rs, c', ok') \<Rightarrow> (RegionReq (r\<lparr>region_done := region_done r @ [Some err]\<rparr>) # rs, c', ok'))
      | (Inr region, c1) \<Rightarrow>
          (case first_loop requests c1 ok of
             (rs, c', ok') \<Rightarrow>
               (RegionReq (r\<lparr>req_region := Some region, region_done := region_done r @ [None]\<rparr>) # rs,
                c', ok')))"
| "first_loop (OtherReq # requests) c ok =
     (case first_loop requests c ok of (rs, c', ok') \<Rightarrow> (OtherReq # rs, c', ok'))"

text \<open>The slice \<open>tsoRequests\<close>: the timestamp requests of the batch, in batch order.\<close>

fun tsoRequests :: "request list \<Rightarrow> tsoRequest list" where
  "tsoRequests [] = []"
| "tsoRequests (TsoReq r # requests) = r # tsoRequests requests"
| "tsoRequests (RegionReq r # requests) = tsoRequests requests"
| "tsoRequests (OtherReq # requests) = tsoRequests requests"

text \<open>
  The second loop: the \<open>i\<close>-th timestamp request gets \<open>ts[i]\<close>, or the error. \<open>i\<close> counts
  the timestamp requests met so far. An index out of range is a run-time panic.
\<close>

fun second_loop :: "error + Timestamp list \<Rightarrow> nat \<Rightarrow> request list \<Rightarrow> error + request list" where
  "second_loop res i [] = Inr []"
| "second_loop res i (TsoReq r # requests) =
     (case res of
        Inl err \<Rightarrow>
          (case second_loop res (i + 1) requests of
             Inl p \<Rightarrow> Inl p
           | Inr rs \<Rightarrow> Inr (TsoReq (r\<lparr>tso_done := tso_done r @ [Some err]\<rparr>) # rs))
      | Inr tss \<Rightarrow>
          if i \<ge> length tss then Inl Panic
          else
            (case second_loop res (i + 1) requests of
               Inl p \<Rightarrow> Inl p
             | Inr rs \<Rightarrow>
                 Inr (TsoReq (r\<lparr>req_physical := Physical (tss ! i), req_logical := Logical (tss ! i),
                                tso_done := tso_done r @ [None]\<rparr>) # rs)))"
| "second_loop res i (x # requests) =
     (case second_loop res i requests of Inl p \<Rightarrow> Inl p | Inr rs \<Rightarrow> Inr (x # rs))"

definition handleRequests :: "request list \<Rightarrow> conn \<Rightarrow> error + (bool \<times> request list \<times> conn)" where
  "handleRequests requests c =
     (case first_loop requests c True of
        (rs, c1, ok) \<Rightarrow>
          (case getTSFromRemote c1 (length (tsoRequests requests)) of
             (res, c2) \<Rightarrow>
               (case second_loop res 0 rs of
                  Inl p \<Rightarrow> Inl p
                | Inr rs' \<Rightarrow> Inr (case res of Inl err \<Rightarrow> False | Inr tss \<Rightarrow> ok, rs', c2))))"

text \<open>The timestamp requests written to a connection so far.\<close>

fun is_Tso :: "wire_request \<Rightarrow> bool" where
  "is_Tso (Tso n) = True"
| "is_Tso (GetMeta k) = False"

definition tso_sent :: "conn \<Rightarrow> wire_request list" where
  "tso_sent c = filter is_Tso (sent c)"

text \<open>
  The worker and \<open>stop\<close>. \<open>requests\<close> is the content of the queue, oldest first. After
  \<open>close(w.quit)\<close> the worker can still take requests off the queue before it sees the
  signal and returns: \<open>taken\<close> is their number, and they are completed by the worker.
  \<open>stop\<close> returns the requests it drained, completed; None: it never returns. Closing
  a closed channel panics.
\<close>

record rpcWorker =
  requests_chan :: "request list"
  quit_closed :: bool
  worker_exited :: bool

fun fail_request :: "error option \<Rightarrow> request \<Rightarrow> request" where
  "fail_request err (TsoReq r) = TsoReq (r\<lparr>tso_done := tso_done r @ [err]\<rparr>)"
| "fail_request err (RegionReq r) = RegionReq (r\<lparr>region_done := region_done r @ [err]\<rparr>)"
| "fail_request err OtherReq = OtherReq"

text \<open>
  The loop \<open>for i := 0; i < len; i++\<close> of \<open>stop\<close>, \<open>len\<close> being the length of the queue
  read once before the loop: each turn receives one request and completes it. A receive
  from the empty queue would block for ever: the result is None.
\<close>

fun drain :: "nat \<Rightarrow> error option \<Rightarrow> request list \<Rightarrow> (request list \<times> request list) option" where
  "drain 0 err q = Some ([], q)"
| "drain (Suc n) err [] = None"
| "drain (Suc n) err (req # q) =
     (case drain n err q of
        None \<Rightarrow> None
      | Some (done_reqs, q') \<Rightarrow> Some (fail_request err req # done_reqs, q'))"

definition stop ::
  "error option \<Rightarrow> nat \<Rightarrow> rpcWorker \<Rightarrow> (error + (request list \<times> rpcWorker)) option" where
  "stop err taken w =
     (if quit_closed w then Some (Inl Panic)
      else
        let w1 = w\<lparr>quit_closed := True\<rparr>;
            w2 = w1\<lparr>requests_chan := drop taken (requests_chan w1), worker_exited := True\<rparr>;
            len = length (requests_chan w2)
        in case drain len err (requests_chan w2) of
             None \<Rightarrow> None
           | Some (done_reqs, q) \<Rightarrow> Some (Inr (done_reqs, w2\<lparr>requests_chan := q\<rparr>)))"

text \<open>The completions a request has received.\<close>

fun completions :: "request \<Rightarrow> error option list" where
  "completions (TsoReq r) = tso_done r"
| "completions (RegionReq r) = region_done r"
| "completions OtherReq = []"


section \<open>The cluster worker (server/cluster_worker.go)\<close>

subsection \<open>The job store\<close>

record Store =
  StoreId :: nat
  NodeId :: nat

text \<open>
  \<open>stores\<close> is \<open>c.mu.stores\<close> in the order the \<open>range\<close> loop visits it. \<open>askJobCh\<close>
  counts the pulses waiting in the channel; its capacity is set where the channel is
  made, outside the sources, and is a field here.
\<close>

record raftCluster =
  cluster_s :: Server
  stores :: "Store list"
  askJobCh :: nat
  askJobCh_cap :: nat

definition cluster_kv :: "raftCluster \<Rightarrow> etcd" where
  "cluster_kv c = client (cluster_s c)"

definition set_kv :: "etcd \<Rightarrow> raftCluster \<Rightarrow> raftCluster" where
  "set_kv kv c = c\<lparr>cluster_s := (cluster_s c)\<lparr>client := kv\<rparr>\<rparr>"

definition asyncNotify :: "raftCluster \<Rightarrow> raftCluster" where
  "asyncNotify c = (if askJobCh c < askJobCh_cap c then c\<lparr>askJobCh := askJobCh c + 1\<rparr> else c)"

text \<open>The generated getters answer on a nil receiver with the default of the field.\<close>

definition GetJobId :: "Job option \<Rightarrow> nat" where
  "GetJobId job = (case job of None \<Rightarrow> 0 | Some j \<Rightarrow> JobId j)"

text \<open>
  \<open>GetStatus\<close> and \<open>GetCmdType\<close> belong to generated code outside the sources; the
  default that \<open>GetStatus\<close> returns for a nil job or an unset field is the parameter
  \<open>dflt\<close>.
\<close>

definition GetStatus :: "JobStatus \<Rightarrow> Job option \<Rightarrow> JobStatus" where
  "GetStatus dflt job =
     (case job of None \<Rightarrow> dflt | Some j \<Rightarrow> (case Status j of None \<Rightarrow> dflt | Some st \<Rightarrow> st))"

definition GetRequest :: "Job option \<Rightarrow> RaftCommandRequest option" where
  "GetRequest job = (case job of None \<Rightarrow> None | Some j \<Rightarrow> Request j)"

definition GetCmdType :: "AdminRequest option \<Rightarrow> AdminCommandType" where
  "GetCmdType a = (case a of None \<Rightarrow> InvalidAdmin | Some r \<Rightarrow> CmdType r)"

text \<open>Writing and deleting a key of the store.\<close>

definition put_job :: "nat \<Rightarrow> Job \<Rightarrow> etcd \<Rightarrow> etcd" where
  "put_job k v kv = kv\<lparr>jobs := (k, v) # filter (\<lambda>e. fst e \<noteq> k) (jobs kv)\<rparr>"

definition delete_job :: "nat \<Rightarrow> etcd \<Rightarrow> etcd" where
  "delete_job k kv = kv\<lparr>jobs := filter (\<lambda>e. fst e \<noteq> k) (jobs kv)\<rparr>"

text \<open>
  \<open>postJob\<close>. \<open>alloc\<close> is the answer of \<open>idAlloc.Alloc()\<close>, \<open>marshal_ok\<close> tells whether
  \<open>proto.Marshal\<close> succeeds, \<open>net\<close> whether the call of the store client goes through.
\<close>

definition postJob ::
  "error + nat \<Rightarrow> bool \<Rightarrow> bool \<Rightarrow> RaftCommandRequest \<Rightarrow> raftCluster \<Rightarrow> (error + unit) \<times> raftCluster" where
  "postJob alloc marshal_ok net req c =
     (case alloc of
        Inl e \<Rightarrow> (Inl e, c)
      | Inr jobID \<Rightarrow>
          let job = \<lparr>JobId = jobID, Status = Some Pending, Request = Some req\<rparr> in
          if \<not> marshal_ok then (Inl MarshalError, c)
          else
            (case Txn net (leaderCmp (cluster_s c)) (put_job jobID job) (cluster_kv c) of
               (Inl e, kv) \<Rightarrow> (Inl e, set_kv kv c)
             | (Inr succeeded, kv) \<Rightarrow>
                 if \<not> succeeded then (Inl PostJobFail, set_kv kv c)
                 else (Inr (), asyncNotify (set_kv kv c))))"

text \<open>
  Modelled from the spec: \<open>getProtoMsg\<close> is not among the sources. \<open>getJob\<close> calls it with
  the client, the key of job 0, the end of range (the key of job \<open>MaxUint64\<close>), limit 1
  and ascending order by key, and no comparison on the leader key is handed to it; the
  spec (4.4, peek): "range-scan \<open>[jobs/0, jobs/MAX]\<close> ascending limit 1. Returns null if
  none". It answers the entry with the least key of the range, if any; the end of a range
  is exclusive.
\<close>

fun least_entry :: "(nat \<times> Job) list \<Rightarrow> (nat \<times> Job) option" where
  "least_entry [] = None"
| "least_entry (e # es) =
     (case least_entry es of
        None \<Rightarrow> Some e
      | Some e' \<Rightarrow> if fst e \<le> fst e' then Some e else Some e')"

definition getProtoMsg :: "bool \<Rightarrow> etcd \<Rightarrow> nat \<Rightarrow> nat \<Rightarrow> error + Job option" where
  "getProtoMsg net kv lo hi =
     (if \<not> net then Inl EtcdError
      else Inr (map_option snd (least_entry (filter (\<lambda>e. lo \<le> fst e \<and> fst e < hi) (jobs kv)))))"

definition MaxUint64 :: nat where "MaxUint64 = 2 ^ 64 - 1"

definition getJob :: "bool \<Rightarrow> raftCluster \<Rightarrow> error + Job option" where
  "getJob net c =
     (case getProtoMsg net (cluster_kv c) 0 MaxUint64 of
        Inl e \<Rightarrow> Inl e
      | Inr None \<Rightarrow> Inr None
      | Inr (Some job) \<Rightarrow> Inr (Some job))"

definition popJob :: "bool \<Rightarrow> Job option \<Rightarrow> raftCluster \<Rightarrow> (error + unit) \<times> raftCluster" where
  "popJob net job c =
     (case Txn net (leaderCmp (cluster_s c)) (delete_job (GetJobId job)) (cluster_kv c) of
        (Inl e, kv) \<Rightarrow> (Inl e, set_kv kv c)
      | (Inr succeeded, kv) \<Rightarrow>
          if \<not> succeeded then (Inl PopJobFailed, set_kv kv c) else (Inr (), set_kv kv c))"

text \<open>
  \<open>updateJobStatus\<close> writes \<open>job.Status\<close> in place before anything can fail: on a nil job
  this assignment is a nil dereference. The job is returned as the call leaves it.
\<close>

definition updateJobStatus ::
  "bool \<Rightarrow> bool \<Rightarrow> Job option \<Rightarrow> JobStatus \<Rightarrow> raftCluster \<Rightarrow> (error + unit) \<times> Job option \<times> raftCluster" where
  "updateJobStatus marshal_ok net job status c =
     (case job of
        None \<Rightarrow> (Inl Panic, None, c)
      | Some j \<Rightarrow>
          let j' = j\<lparr>Status := Some status\<rparr> in
          if \<not> marshal_ok then (Inl MarshalError, Some j', c)
          else
            (case Txn net (leaderCmp (cluster_s c)) (put_job (JobId j) j') (cluster_kv c) of
               (Inl e, kv) \<Rightarrow> (Inl e, Some j', set_kv kv c)
             | (Inr succeeded, kv) \<Rightarrow>
                 if \<not> succeeded then (Inl PopJobFailed, Some j', set_kv kv c)
                 else (Inr (), Some j', set_kv kv c)))"

subsection \<open>The job worker\<close>

text \<open>
  \<open>handleJob\<close>. The handlers of the two admin commands are parameters: \<open>hcp\<close> stands for
  \<open>handleChangePeer\<close> and \<open>hsp\<close> for \<open>handleSplit\<close>. \<open>req.AdminRequest\<close> on a nil
  \<open>req\<close> is a nil dereference.
\<close>

type_synonym handler = "Job option \<Rightarrow> raftCluster \<Rightarrow> (error + unit) \<times> raftCluster"

definition handleJob ::
  "JobStatus \<Rightarrow> handler \<Rightarrow> handler \<Rightarrow> bool \<Rightarrow> bool \<Rightarrow> Job option \<Rightarrow> raftCluster
     \<Rightarrow> (error + unit) \<times> raftCluster" where
  "handleJob dflt hcp hsp marshal_ok net job c =
     (let (r, job1, c1) =
            (if GetStatus dflt job = Pending then updateJobStatus marshal_ok net job Running c
             else (Inr (), job, c))
      in case r of
           Inl e \<Rightarrow> (Inl e, c1)
         | Inr u \<Rightarrow>
            (case GetRequest job1 of
               None \<Rightarrow> (Inl Panic, c1)
             | Some req \<Rightarrow>
                (case GetCmdType (AdminRequest_of req) of
                   ChangePeer \<Rightarrow> hcp job1 c1
                 | Split \<Rightarrow> hsp job1 c1
                 | InvalidAdmin \<Rightarrow> (Inr (), c1))))"

text \<open>
  One turn of the loop of \<open>onJobWorker\<close> on a pulse of \<open>askJobCh\<close>. \<open>is_leader\<close> is the
  answer of \<open>c.s.IsLeader()\<close>; \<open>get_net\<close>, \<open>net\<close> and \<open>pop_net\<close> tell whether the calls
  of the store client made by \<open>getJob\<close>, \<open>updateJobStatus\<close> and \<open>popJob\<close> go through.
  Errors are logged and the turn ends with \<open>Inr ()\<close>; \<open>Inl Panic\<close> is a panic of the
  goroutine. The result also tells whether \<open>handleJob\<close> was called.
\<close>

definition onJobWorker_pulse ::
  "JobStatus \<Rightarrow> handler \<Rightarrow> handler \<Rightarrow> bool \<Rightarrow> bool \<Rightarrow> bool \<Rightarrow> bool \<Rightarrow> bool \<Rightarrow> raftCluster
     \<Rightarrow> (error + unit) \<times> bool \<times> raftCluster" where
  "onJobWorker_pulse dflt hcp hsp is_leader get_net marshal_ok net pop_net c =
     (if \<not> is_leader then (Inr (), False, c)
      else
        let (job, err) = (case getJob get_net c of Inl e \<Rightarrow> (None, Some e) | Inr j \<Rightarrow> (j, None)) in
        if err = None \<and> job = None then (Inr (), False, c)
        else
          (case handleJob dflt hcp hsp marshal_ok net job c of
             (Inl e, c1) \<Rightarrow>
               if e = Panic then (Inl Panic, True, c1) else (Inr (), True, asyncNotify c1)
           | (Inr u, c1) \<Rightarrow>
               (case popJob pop_net job c1 of (r, c2) \<Rightarrow> (Inr (), True, asyncNotify c2))))"

subsection \<open>Placing a new peer\<close>

text \<open>
  The inner loop of \<open>handleAddPeerReq\<close> over the peers of the region, for one store:
  it returns \<open>(existStore, existNode)\<close>, and stops at the first peer on the store.
\<close>

fun scan_peers :: "nat \<Rightarrow> nat \<Rightarrow> Peer list \<Rightarrow> bool \<Rightarrow> bool \<times> bool" where
  "scan_peers storeID nodeID [] existNode = (False, existNode)"
| "scan_peers storeID nodeID (peer # peers) existNode =
     (if store_id peer = storeID then (True, existNode)
      else if node_id peer = nodeID then scan_peers storeID nodeID peers True
      else scan_peers storeID nodeID peers existNode)"

text \<open>The outer loop: it returns \<open>(bestStores, matchStores)\<close>.\<close>

fun classify_stores :: "Region \<Rightarrow> Store list \<Rightarrow> Store list \<times> Store list" where
  "classify_stores region [] = ([], [])"
| "classify_stores region (store # rest) =
     (case classify_stores region rest of
        (bestStores, matchStores) \<Rightarrow>
          (case scan_peers (StoreId store) (NodeId store) (Peers region) False of
             (existStore, existNode) \<Rightarrow>
               if existStore then (bestStores, matchStores)
               else if existNode then (bestStores, store # matchStores)
               else (store # bestStores, matchStores)))"

text \<open>
  \<open>rand.Intn(n)\<close> panics for \<open>n \<le> 0\<close> and else returns a number below \<open>n\<close>: the
  number \<open>rnd mod n\<close>, \<open>rnd\<close> being what the generator draws.
\<close>

definition Intn :: "nat \<Rightarrow> nat \<Rightarrow> error + nat" where
  "Intn rnd n = (if n = 0 then Inl Panic else Inr (rnd mod n))"

definition chooseStore :: "nat \<Rightarrow> Store list \<Rightarrow> Store list \<Rightarrow> error + Store" where
  "chooseStore rnd bestStores matchStores =
     (if length bestStores > 0 then
        (case Intn rnd (length bestStores) of Inl p \<Rightarrow> Inl p | Inr i \<Rightarrow> Inr (bestStores ! i))
      else
        (case Intn rnd (length matchStores) of Inl p \<Rightarrow> Inl p | Inr i \<Rightarrow> Inr (matchStores ! i)))"

definition handleAddPeerReq :: "error + nat \<Rightarrow> nat \<Rightarrow> Region \<Rightarrow> raftCluster \<Rightarrow> error + Peer" where
  "handleAddPeerReq alloc rnd region c =
     (case alloc of
        Inl e \<Rightarrow> Inl e
      | Inr peerID \<Rightarrow>
         (case classify_stores region (stores c) of
            (bestStores, matchStores) \<Rightarrow>
              if length bestStores = 0 \<and> length matchStores = 0 then Inl NoStoreToAddPeer
              else
                (case chooseStore rnd bestStores matchStores of
                   Inl p \<Rightarrow> Inl p
                 | Inr store \<Rightarrow>
                     Inr \<lparr>peer_id = peerID, node_id = NodeId store, store_id = StoreId store\<rparr>)))"

text \<open>The words of the claim on placement: a store hosts a peer of the region, or its node does.\<close>

definition on_store :: "Region \<Rightarrow> Store \<Rightarrow> bool" where
  "on_store region st = (\<exists>p\<in>set (Peers region). store_id p = StoreId st)"

definition on_node :: "Region \<Rightarrow> Store \<Rightarrow> bool" where
  "on_node region st = (\<exists>p\<in>set (Peers region). node_id p = NodeId st)"

definition best_store :: "Region \<Rightarrow> Store \<Rightarrow> bool" where
  "best_store region st = (\<not> on_store region st \<and> \<not> on_node region st)"

definition match_store :: "Region \<Rightarrow> Store \<Rightarrow> bool" where
  "match_store region st = (\<not> on_store region st \<and> on_node region st)"


subsection \<open>Sending a command to the storage nodes\<close>

definition maxSendRetry :: nat where "maxSendRetry = 10"

text \<open>The response of a storage node, with the fields the code reads.\<close>

record NotLeaderError =
  nl_leader :: "Peer option"                       \<comment> \<open>\<open>NotLeader.Leader\<close>, the hint\<close>

record RaftError =
  err_NotLeader :: "NotLeaderError option"
  err_RegionNotFound :: bool

record RaftResponseHeader =
  hdr_Error :: "RaftError option"

record ChangePeerResponse =
  cp_Region :: "Region option"

record AdminResponse =
  adm_ChangePeer :: "ChangePeerResponse option"

record RegionDetailResponse =
  detail_Region :: "Region option"

record StatusResponse =
  st_RegionLeader :: "Peer option option"          \<comment> \<open>\<open>RegionLeader\<close> and its \<open>Leader\<close>\<close>
  st_RegionDetail :: "RegionDetailResponse option"

record RaftCommandResponse =
  resp_Header :: "RaftResponseHeader option"
  resp_AdminResponse :: "AdminResponse option"
  resp_StatusResponse :: "StatusResponse option"

text \<open>
  The storage nodes, seen from \<open>callCommand\<close>: \<open>outcomes\<close> is what happens at each call,
  in order. The call fails (\<open>GetNode\<close>, the dial, the write or the read gives an error),
  or a message is read, whose \<open>CmdResp\<close> can be nil. With the list used up, calls fail.
  \<open>calls\<close> logs the requests of the calls made, oldest first.
\<close>

datatype call_outcome = CallFails | CallReply "RaftCommandResponse option"

record network =
  outcomes :: "call_outcome list"
  calls :: "RaftCommandRequest list"

definition callCommand :: "RaftCommandRequest \<Rightarrow> network \<Rightarrow> (error + RaftCommandResponse) \<times> network" where
  "callCommand request net =
     (case outcomes net of
        [] \<Rightarrow> (Inl NetworkError, net\<lparr>calls := calls net @ [request]\<rparr>)
      | CallFails # rest \<Rightarrow>
          (Inl NetworkError, net\<lparr>outcomes := rest, calls := calls net @ [request]\<rparr>)
      | CallReply None # rest \<Rightarrow>
          (Inl InvalidCommandResponse, net\<lparr>outcomes := rest, calls := calls net @ [request]\<rparr>)
      | CallReply (Some resp) # rest \<Rightarrow>
          (Inr resp, net\<lparr>outcomes := rest, calls := calls net @ [request]\<rparr>))"

definition getRegionLeader :: "nat \<Rightarrow> Peer option \<Rightarrow> network \<Rightarrow> (error + Peer option) \<times> network" where
  "getRegionLeader regionID peer net =
     (case callCommand \<lparr>header_peer = peer, header_region_id = regionID, AdminRequest_of = None,
                         StatusRequest_of = Some RegionLeaderCmd\<rparr> net of
        (Inl e, net') \<Rightarrow> (Inl e, net')
      | (Inr resp, net') \<Rightarrow>
          (case resp_StatusResponse resp of
             None \<Rightarrow> (Inl GetRegionLeaderFailed, net')
           | Some st \<Rightarrow>
               (case st_RegionLeader st of
                  None \<Rightarrow> (Inl GetRegionLeaderFailed, net')
                | Some leader \<Rightarrow> (Inr leader, net'))))"

definition getRegionDetail ::
  "nat \<Rightarrow> Peer option \<Rightarrow> network \<Rightarrow> (error + RegionDetailResponse) \<times> network" where
  "getRegionDetail regionID peer net =
     (case callCommand \<lparr>header_peer = peer, header_region_id = regionID, AdminRequest_of = None,
                         StatusRequest_of = Some RegionDetailCmd\<rparr> net of
        (Inl e, net') \<Rightarrow> (Inl e, net')
      | (Inr resp, net') \<Rightarrow>
          (case resp_StatusResponse resp of
             None \<Rightarrow> (Inl GetRegionDetailFailed, net')
           | Some st \<Rightarrow>
               (case st_RegionDetail st of
                  None \<Rightarrow> (Inl GetRegionDetailFailed, net')
                | Some detail \<Rightarrow> (Inr detail, net'))))"

definition GetPeerId :: "Peer option \<Rightarrow> nat" where
  "GetPeerId p = (case p of None \<Rightarrow> 0 | Some q \<Rightarrow> peer_id q)"

text \<open>
  The inner loop of \<open>sendRaftCommand\<close> over the peers of the region: it asks every peer
  other than the origin for the leader and stops at the first leader it gets. None: the
  loop ran to its end.
\<close>

fun probe_peers :: "nat \<Rightarrow> Peer option \<Rightarrow> Peer list \<Rightarrow> network \<Rightarrow> Peer option \<times> network" where
  "probe_peers regionID originPeer [] net = (None, net)"
| "probe_peers regionID originPeer (peer # peers) net =
     (if peer_id peer = GetPeerId originPeer then probe_peers regionID originPeer peers net
      else
        (case getRegionLeader regionID (Some peer) net of
           (Inl e, net') \<Rightarrow> probe_peers regionID originPeer peers net'
         | (Inr None, net') \<Rightarrow> probe_peers regionID originPeer peers net'
         | (Inr (Some leader), net') \<Rightarrow> (Some leader, net')))"

text \<open>
  The loop \<open>for i := 0; i < maxSendRetry; i++\<close>; the first argument counts the turns
  left. The request is held by pointer and its \<open>Header.Peer\<close> is rewritten in place, so
  the request is returned too. \<open>resp.Header.Error\<close> on a nil header and \<open>region.Peers\<close>
  on a nil region are nil dereferences.
\<close>

fun send_loop ::
  "nat \<Rightarrow> RaftCommandRequest \<Rightarrow> Region option \<Rightarrow> Peer option \<Rightarrow> network
     \<Rightarrow> (error + RaftCommandResponse) \<times> RaftCommandRequest \<times> network" where
  "send_loop 0 request region originPeer net = (Inl SendRaftCommandFailed, request, net)"
| "send_loop (Suc n) request region originPeer net =
     (case callCommand request net of
        (Inl e, net1) \<Rightarrow> (Inl e, request, net1)
      | (Inr resp, net1) \<Rightarrow>
          (case resp_Header resp of
             None \<Rightarrow> (Inl Panic, request, net1)
           | Some hdr \<Rightarrow>
              (case hdr_Error hdr of
                 None \<Rightarrow> (Inr resp, request, net1)
               | Some err \<Rightarrow>
                  (case err_NotLeader err of
                     None \<Rightarrow> (Inr resp, request, net1)
                   | Some nl \<Rightarrow>
                      (case nl_leader nl of
                         Some leader \<Rightarrow>
                           send_loop n (request\<lparr>header_peer := Some leader\<rparr>) region originPeer net1
                       | None \<Rightarrow>
                          (case region of
                             None \<Rightarrow> (Inl Panic, request, net1)
                           | Some r \<Rightarrow>
                              (case probe_peers (region_id r) originPeer (Peers r) net1 of
                                 (Some leader, net2) \<Rightarrow>
                                   send_loop n (request\<lparr>header_peer := Some leader\<rparr>) region
                                     originPeer net2
                               | (None, net2) \<Rightarrow> (Inr resp, request, net2))))))))"

definition sendRaftCommand ::
  "RaftCommandRequest \<Rightarrow> Region option \<Rightarrow> network
     \<Rightarrow> (error + RaftCommandResponse) \<times> RaftCommandRequest \<times> network" where
  "sendRaftCommand request region net =
     send_loop maxSendRetry request region (header_peer request) net"

subsection \<open>Driving a change of peers\<close>

text \<open>
  \<open>checkChangePeerOK\<close>, the reconciliation: it asks the peer of the request for the
  detail of the region and tells whether the change is already there. With a nil
  \<open>ChangePeer\<close> the loop over the peers dereferences it at its first turn, and
  \<open>GetChangeType\<close> answers the default, \<open>AddNode\<close>.
\<close>

definition checkChangePeerOK ::
  "RaftCommandRequest \<Rightarrow> network \<Rightarrow> (error + ChangePeerResponse option) \<times> network" where
  "checkChangePeerOK request net =
     (case getRegionDetail (header_region_id request) (header_peer request) net of
        (Inl e, net') \<Rightarrow> (Inl e, net')
      | (Inr detail, net') \<Rightarrow>
          (case AdminRequest_of request of
             None \<Rightarrow> (Inl Panic, net')
           | Some adm \<Rightarrow>
              (case detail_Region detail of
                 None \<Rightarrow> (Inl Panic, net')
               | Some r \<Rightarrow>
                  (case ChangePeer_req adm of
                     None \<Rightarrow> if Peers r \<noteq> [] then (Inl Panic, net') else (Inr None, net')
                   | Some changePeer \<Rightarrow>
                       let found = (\<exists>peer\<in>set (Peers r). peer_id peer = GetPeerId (cpr_Peer changePeer));
                           changeType = ChangeType changePeer
                       in if (changeType = AddNode \<and> found) \<or> (changeType = RemoveNode \<and> \<not> found)
                          then (Inr (Some \<lparr>cp_Region = detail_Region detail\<rparr>), net')
                          else (Inr None, net')))))"

text \<open>
  The end of \<open>handleChangePeer\<close>: the region of the response is written under its
  search key, on condition of the leader comparison. \<open>proto.Marshal\<close> fails on a nil
  region.
\<close>

definition put_region :: "Region \<Rightarrow> etcd \<Rightarrow> etcd" where
  "put_region r kv =
     kv\<lparr>region_search := (end_key r, r) # filter (\<lambda>e. fst e \<noteq> end_key r) (region_search kv)\<rparr>"

definition update_region ::
  "bool \<Rightarrow> bool \<Rightarrow> ChangePeerResponse \<Rightarrow> raftCluster \<Rightarrow> (error + unit) \<times> raftCluster" where
  "update_region marshal_ok net changePeer c =
     (case cp_Region changePeer of
        None \<Rightarrow> (Inl MarshalError, c)
      | Some region \<Rightarrow>
          if \<not> marshal_ok then (Inl MarshalError, c)
          else
            (case Txn net (leaderCmp (cluster_s c)) (put_region region) (cluster_kv c) of
               (Inl e, kv) \<Rightarrow> (Inl e, set_kv kv c)
             | (Inr succeeded, kv) \<Rightarrow>
                 if \<not> succeeded then (Inl UpdateRegionFailed, set_kv kv c)
                 else (Inr (), set_kv kv c)))"

text \<open>
  \<open>handleChangePeer\<close>. A response whose header carries an error goes to
  \<open>checkChangePeerOK\<close>, with the request as \<open>sendRaftCommand\<close> left it; any other response
  must hold the answer to the change of peers.
\<close>

definition handleChangePeer ::
  "bool \<Rightarrow> bool \<Rightarrow> Job option \<Rightarrow> raftCluster \<Rightarrow> network \<Rightarrow> (error + unit) \<times> raftCluster \<times> network" where
  "handleChangePeer marshal_ok enet job c net =
     (case job of
        None \<Rightarrow> (Inl Panic, c, net)
      | Some j \<Rightarrow>
         (case Request j of
            None \<Rightarrow> (Inl Panic, c, net)
          | Some request \<Rightarrow>
             (case AdminRequest_of request of
                None \<Rightarrow> (Inl Panic, c, net)
              | Some adm \<Rightarrow>
                 (case ChangePeer_req adm of
                    None \<Rightarrow> (Inl Panic, c, net)
                  | Some cpr \<Rightarrow>
                     (case sendRaftCommand request (cpr_Region cpr) net of
                        (Inl e, request', net1) \<Rightarrow> (Inl e, c, net1)
                      | (Inr response, request', net1) \<Rightarrow>
                          if resp_Header response \<noteq> None
                             \<and> Option.bind (resp_Header response) hdr_Error \<noteq> None
                          then
                            (case checkChangePeerOK request' net1 of
                               (Inl e, net2) \<Rightarrow> (Inl e, c, net2)
                             | (Inr None, net2) \<Rightarrow> (Inr (), c, net2)
                             | (Inr (Some changePeer), net2) \<Rightarrow>
                                 (case update_region marshal_ok enet changePeer c of
                                    (r, c') \<Rightarrow> (r, c', net2)))
                          else
                            (case resp_AdminResponse response of
                               None \<Rightarrow> (Inl Panic, c, net1)
                             | Some ar \<Rightarrow>
                                (case adm_ChangePeer ar of
                                   None \<Rightarrow> (Inl Panic, c, net1)
                                 | Some changePeer \<Rightarrow>
                                     (case update_region marshal_ok enet changePeer c of
                                        (r, c') \<Rightarrow> (r, c', net1)))))))))"


section \<open>Concrete inputs\<close>

text \<open>The batches, connections, clusters and networks the closed theorems below evaluate.\<close>

definition assign_ts :: "Timestamp \<Rightarrow> tsoRequest \<Rightarrow> tsoRequest" where
  "assign_ts t r = r\<lparr>req_physical := Physical t, req_logical := Logical t,
     tso_done := tso_done r @ [None]\<rparr>"

definition region1 :: Region where
  "region1 = \<lparr>region_id = 1, end_key = [], Peers = [\<lparr>peer_id = 1, node_id = 1, store_id = 1\<rparr>]\<rparr>"

definition c4_batch :: "request list" where
  "c4_batch = [RegionReq \<lparr>req_key = [97], region_done = [], req_region = None\<rparr>]"

definition c4_conn :: conn where
  "c4_conn = \<lparr>sent = [],
     script = [Reply \<lparr>resp_tso = None, resp_get_meta = Some (Some region1)\<rparr>,
               Reply \<lparr>resp_tso = Some [], resp_get_meta = None\<rparr>]\<rparr>"

definition c5_batch :: "request list" where
  "c5_batch = [TsoReq \<lparr>tso_done = [], req_physical = 0, req_logical = 0\<rparr>,
               RegionReq \<lparr>req_key = [97], region_done = [], req_region = None\<rparr>,
               TsoReq \<lparr>tso_done = [], req_physical = 0, req_logical = 0\<rparr>]"

definition c5_conn :: conn where
  "c5_conn = \<lparr>sent = [],
     script = [Reply \<lparr>resp_tso = None, resp_get_meta = Some (Some region1)\<rparr>,
               Reply \<lparr>resp_tso = Some [\<lparr>Physical = 7000, Logical = 1\<rparr>, \<lparr>Physical = 7000, Logical = 2\<rparr>],
                      resp_get_meta = None\<rparr>]\<rparr>"

definition c4_conn1 :: conn where
  "c4_conn1 = \<lparr>sent = [GetMeta [97]],
     script = [Reply \<lparr>resp_tso = Some [], resp_get_meta = None\<rparr>]\<rparr>"

definition c4_conn2 :: conn where
  "c4_conn2 = \<lparr>sent = [GetMeta [97], Tso 0], script = []\<rparr>"

definition c4_batch_done :: "request list" where
  "c4_batch_done = [RegionReq \<lparr>req_key = [97], region_done = [None], req_region = Some region1\<rparr>]"

definition c5_conn1 :: conn where
  "c5_conn1 = \<lparr>sent = [GetMeta [97]],
     script = [Reply \<lparr>resp_tso = Some [\<lparr>Physical = 7000, Logical = 1\<rparr>, \<lparr>Physical = 7000, Logical = 2\<rparr>],
                      resp_get_meta = None\<rparr>]\<rparr>"

definition c5_conn2 :: conn where
  "c5_conn2 = \<lparr>sent = [GetMeta [97], Tso 2], script = []\<rparr>"

definition c5_batch1 :: "request list" where
  "c5_batch1 = [TsoReq \<lparr>tso_done = [], req_physical = 0, req_logical = 0\<rparr>,
               RegionReq \<lparr>req_key = [97], region_done = [None], req_region = Some region1\<rparr>,
               TsoReq \<lparr>tso_done = [], req_physical = 0, req_logical = 0\<rparr>]"

definition c5_batch2 :: "request list" where
  "c5_batch2 = [TsoReq \<lparr>tso_done = [None], req_physical = 7000, req_logical = 1\<rparr>,
               RegionReq \<lparr>req_key = [97], region_done = [None], req_region = Some region1\<rparr>,
               TsoReq \<lparr>tso_done = [None], req_physical = 7000, req_logical = 2\<rparr>]"

definition c9_worker :: rpcWorker where
  "c9_worker = \<lparr>requests_chan = c5_batch, quit_closed = False, worker_exited = False\<rparr>"

definition c9_drained :: "request list" where
  "c9_drained = [RegionReq \<lparr>req_key = [97], region_done = [Some Stopped], req_region = None\<rparr>,
                 TsoReq \<lparr>tso_done = [Some Stopped], req_physical = 0, req_logical = 0\<rparr>]"

definition c9_worker' :: rpcWorker where
  "c9_worker' = \<lparr>requests_chan = [], quit_closed = True, worker_exited = True\<rparr>"

definition job1 :: Job where
  "job1 = \<lparr>JobId = 5, Status = Some Pending,
     Request = Some \<lparr>header_peer = None, header_region_id = 1, AdminRequest_of = None, StatusRequest_of = None\<rparr>\<rparr>"

definition lost_cluster :: raftCluster where
  "lost_cluster = \<lparr>cluster_s = \<lparr>LeaderLease = 3, own_rev = 1, ts = None, lastSavedTime = zero_Time,
       client = \<lparr>leader_rev = 2, timestamp_key = None, jobs = [(5, job1)], region_search = []\<rparr>\<rparr>,
     stores = [], askJobCh = 0, askJobCh_cap = 1\<rparr>"

definition c8_region :: Region where
  "c8_region = \<lparr>region_id = 1, end_key = [], Peers = [\<lparr>peer_id = 1, node_id = 1, store_id = 1\<rparr>]\<rparr>"

definition c8_cluster :: raftCluster where
  "c8_cluster = \<lparr>cluster_s = \<lparr>LeaderLease = 3, own_rev = 1, ts = None, lastSavedTime = zero_Time,
       client = \<lparr>leader_rev = 1, timestamp_key = None, jobs = [], region_search = []\<rparr>\<rparr>,
     stores = [\<lparr>StoreId = 1, NodeId = 1\<rparr>, \<lparr>StoreId = 2, NodeId = 1\<rparr>, \<lparr>StoreId = 3, NodeId = 2\<rparr>],
     askJobCh = 0, askJobCh_cap = 1\<rparr>"

definition c10_region :: Region where
  "c10_region = \<lparr>region_id = 1, end_key = [],
     Peers = [\<lparr>peer_id = 1, node_id = 1, store_id = 1\<rparr>, \<lparr>peer_id = 2, node_id = 2, store_id = 2\<rparr>,
              \<lparr>peer_id = 3, node_id = 3, store_id = 3\<rparr>]\<rparr>"

definition c10_request :: RaftCommandRequest where
  "c10_request = \<lparr>header_peer = Some \<lparr>peer_id = 1, node_id = 1, store_id = 1\<rparr>,
     header_region_id = 1,
     AdminRequest_of = Some \<lparr>CmdType = ChangePeer,
       ChangePeer_req = Some \<lparr>ChangeType = AddNode,
         cpr_Peer = Some \<lparr>peer_id = 4, node_id = 4, store_id = 4\<rparr>,
         cpr_Region = Some c10_region\<rparr>\<rparr>,
     StatusRequest_of = None\<rparr>"

definition c10_resp :: RaftCommandResponse where
  "c10_resp = \<lparr>resp_Header = Some \<lparr>hdr_Error = Some \<lparr>err_NotLeader = Some \<lparr>nl_leader = None\<rparr>,
       err_RegionNotFound = False\<rparr>\<rparr>,
     resp_AdminResponse = None, resp_StatusResponse = None\<rparr>"

definition c10_no_leader :: RaftCommandResponse where
  "c10_no_leader = \<lparr>resp_Header = None, resp_AdminResponse = None,
     resp_StatusResponse = Some \<lparr>st_RegionLeader = Some None, st_RegionDetail = None\<rparr>\<rparr>"

definition c10_net :: network where
  "c10_net = \<lparr>outcomes = [CallReply (Some c10_resp), CallFails, CallReply (Some c10_no_leader)],
     calls = []\<rparr>"

definition c10_net1 :: network where
  "c10_net1 = \<lparr>outcomes = [CallFails, CallReply (Some c10_no_leader)], calls = [c10_request]\<rparr>"

definition c10_net2 :: network where
  "c10_net2 = \<lparr>outcomes = [],
     calls = [c10_request,
       \<lparr>header_peer = Some \<lparr>peer_id = 2, node_id = 2, store_id = 2\<rparr>, header_region_id = 1,
        AdminRequest_of = None, StatusRequest_of = Some RegionLeaderCmd\<rparr>,
       \<lparr>header_peer = Some \<lparr>peer_id = 3, node_id = 3, store_id = 3\<rparr>, header_region_id = 1,
        AdminRequest_of = None, StatusRequest_of = Some RegionLeaderCmd\<rparr>]\<rparr>"

definition c10_job :: Job where
  "c10_job = \<lparr>JobId = 5, Status = Some Running, Request = Some c10_request\<rparr>"


section \<open>Properties of the timestamp oracle\<close>

subsection \<open>Arithmetic of the machine integers\<close>

lemma int64_id: "- (2 ^ 63) \<le> x \<Longrightarrow> x < 2 ^ 63 \<Longrightarrow> int64 x = x"
  by (simp add: int64_def)

lemma sdiv_nonneg: "0 \<le> a \<Longrightarrow> 0 < b \<Longrightarrow> (a::int) sdiv b = a div b"
  by (simp add: signed_divide_int_def sgn_if)

text \<open>On a steady clock \<open>Time.Sub\<close> is the difference of the wall clock readings.\<close>

lemma Sub_steady: "steady d t \<Longrightarrow> steady d u \<Longrightarrow> Sub t u = wall_ns t - wall_ns u"
  by (simp add: Sub_def steady_def clock_ok_def maxDuration_def minDuration_def Let_def)

lemma UnixNano_wall: "clock_ok t \<Longrightarrow> UnixNano t = wall_ns t"
  by (simp add: UnixNano_def int64_id clock_ok_def)

lemma sdiv_pos_iff: "(d::int) sdiv 1000000 \<le> 0 \<longleftrightarrow> d < 1000000"
proof (cases "0 \<le> d")
  case True
  then have "d sdiv 1000000 = d div 1000000" by (simp add: sdiv_nonneg)
  moreover have "d div 1000000 \<le> 0 \<longleftrightarrow> d < 1000000" using True by arith 
  ultimately show ?thesis by simp
next
  case False
  then have "d sdiv 1000000 = - ((- d) div 1000000)" by (simp add: signed_divide_int_def sgn_if)
  moreover have "0 \<le> (- d) div 1000000" using False by arith
  ultimately show ?thesis using False by simp
qed

lemma ms_mono: "0 \<le> p \<Longrightarrow> p + 1000000 \<le> now \<Longrightarrow> p div 1000000 < now div (1000000::int)"
  by arith


subsection \<open>An invariant of the leader process\<close>

text \<open>
  On a steady clock, whose wall clock is \<open>d\<close> ahead of its monotonic clock,
  \<open>synced d\<close> holds after \<open>syncTimestamp\<close> and is kept by every step; \<open>adv s s'\<close> says
  that the pair (millisecond of the physical part, logical part) did not go down from
  \<open>s\<close> to \<open>s'\<close>; a timestamp issued between \<open>s\<close> and \<open>s'\<close> lies strictly above
  the pair of \<open>s\<close> and at or below the pair of \<open>s'\<close>.
\<close>

lemma adv_refl: "adv s s" by (simp add: adv_def)

lemma adv_trans: "adv a b \<Longrightarrow> adv b c \<Longrightarrow> adv a c"
  by (auto simp: adv_def)

lemma above_adv: "adv a b \<Longrightarrow> ts_above b T \<Longrightarrow> ts_above a T"
  by (auto simp: adv_def ts_above_def)

lemma below_adv: "ts_below T a \<Longrightarrow> adv a b \<Longrightarrow> ts_below T b"
  by (auto simp: adv_def ts_below_def)

lemma below_above_less: "ts_below T a \<Longrightarrow> ts_above a T' \<Longrightarrow> ts_less T T'"
  by (auto simp: ts_below_def ts_above_def ts_less_def)

lemma saveTimestamp_cases:
  "saveTimestamp net now s = (r, s') \<Longrightarrow>
     (r = Inr () \<and> s' = s\<lparr>client := (client s)\<lparr>timestamp_key := Some (UnixNano now)\<rparr>, lastSavedTime := now\<rparr>
        \<and> net \<and> leaderCmp s (client s))
   \<or> ((\<exists>e. r = Inl e) \<and> s' = s \<and> \<not> (net \<and> leaderCmp s (client s)))"
  by (auto simp: saveTimestamp_def Txn_def split: if_splits)

lemma div_ms_bound: "(a::int) div 1000000 \<le> k \<Longrightarrow> a < (k + 1) * 1000000"
proof -
  assume h: "a div 1000000 \<le> k"
  have "a = (a div 1000000) * 1000000 + a mod 1000000" by simp
  moreover have "a mod 1000000 < 1000000" by simp
  moreover have "(a div 1000000) * 1000000 \<le> k * 1000000" using h by simp
  ultimately show ?thesis by (simp add: algebra_simps)
qed

lemma synced_store:
  assumes "synced d s" "steady d now" "saved s \<le> wall_ns now"
    "wall_ns now - saved s < (LeaderLease s * 1000 + 1) * 1000000"
  shows "synced d (s\<lparr>ts := Some \<lparr>physical = now, logical = 0\<rparr>\<rparr>)"
  using assms by (simp add: synced_def phys_def phys_t_def saved_def)

lemma synced_save_store:
  assumes "synced d s" "steady d now"
  shows "synced d (s\<lparr>client := (client s)\<lparr>timestamp_key := Some (wall_ns now)\<rparr>,
     lastSavedTime := now, ts := Some \<lparr>physical = now, logical = 0\<rparr>\<rparr>)"
  using assms by (simp add: synced_def phys_def phys_t_def saved_def lease_ok_def)

lemma adv_store:
  assumes "phys_ms s < phys_ms (s\<lparr>ts := Some \<lparr>physical = now, logical = 0\<rparr>\<rparr>)"
    "saved s \<le> wall_ns l"
  shows "adv s (s\<lparr>client := c, lastSavedTime := l, ts := Some \<lparr>physical = now, logical = 0\<rparr>\<rparr>)"
    and "adv s (s\<lparr>ts := Some \<lparr>physical = now, logical = 0\<rparr>\<rparr>)"
  using assms by (simp_all add: adv_def phys_def phys_t_def phys_ms_def saved_def logi_def)

lemma updateTimestamp_synced:
  assumes "synced d s" "steady d now" "updateTimestamp now net s = (r, s')"
  shows "synced d s' \<and> adv s s'"
proof -
  from assms(1) obtain prev where prev: "ts s = Some prev" by (auto simp: synced_def)
  define wn where "wn = wall_ns now"
  define wp where "wp = wall_ns (physical prev)"
  define wl where "wl = saved s"
  have p: "phys s = wp" "phys_t s = physical prev"
    using prev by (simp_all add: phys_def phys_t_def wp_def)
  have st: "steady d (physical prev)" "steady d (lastSavedTime s)" "lease_ok (LeaderLease s)"
    and le: "wl \<le> wp"
    using assms(1) p by (simp_all add: synced_def wl_def)
  have cn: "clock_ok now" and cp: "clock_ok (physical prev)"
    using assms(2) st(1) by (simp_all add: steady_def)
  have sub1: "Sub now (physical prev) = wn - wp"
    unfolding wn_def wp_def using assms(2) st(1) by (rule Sub_steady)
  have sub2: "Sub now (lastSavedTime s) = wn - wl"
    unfolding wn_def wl_def saved_def using assms(2) st(2) by (rule Sub_steady)
  have l64: "int64 (LeaderLease s * 1000) = LeaderLease s * 1000"
    using st(3) by (intro int64_id) (simp_all add: lease_ok_def)
  have un: "UnixNano now = wall_ns now" using cn by (rule UnixNano_wall)
  show ?thesis
  proof (cases "wn - wp < 1000000")
    case True
    then have "s' = s" using assms(3) prev sub1 by (simp add: updateTimestamp_def Let_def sdiv_pos_iff)
    then show ?thesis using assms(1) by (simp add: adv_refl)
  next
    case False
    have "0 \<le> wp" using cp by (simp add: clock_ok_def wp_def)
    moreover have "wp + 1000000 \<le> wn" using False by simp
    ultimately have "wp div 1000000 < wn div 1000000"
      by (rule ms_mono)
    then have ms: "phys_ms s < phys_ms (s\<lparr>ts := Some \<lparr>physical = now, logical = 0\<rparr>\<rparr>)"
      unfolding phys_ms_def phys_def phys_t_def prev wn_def wp_def by simp
    have lnow: "saved s \<le> wall_ns now" using le False by (simp add: wl_def wn_def)
    show ?thesis
    proof (cases "(wn - wl) sdiv 1000000 > LeaderLease s * 1000")
      case save: True
      obtain r1 s1 where sv: "saveTimestamp net now s = (r1, s1)" by (cases "saveTimestamp net now s")
      have upd: "(r, s') = (case (r1, s1) of (Inl e, s') \<Rightarrow> (Inl e, s')
             | (Inr u, s') \<Rightarrow> (Inr (), s'\<lparr>ts := Some \<lparr>physical = now, logical = 0\<rparr>\<rparr>))"
        using assms(3) prev sub1 sub2 l64 False save sv
        by (simp add: updateTimestamp_def Let_def sdiv_pos_iff)
      from saveTimestamp_cases[OF sv] show ?thesis
      proof
        assume a: "r1 = Inr () \<and> s1 = s\<lparr>client := (client s)\<lparr>timestamp_key := Some (UnixNano now)\<rparr>, lastSavedTime := now\<rparr> \<and> net \<and> leaderCmp s (client s)"
        then have s': "s' = s\<lparr>client := (client s)\<lparr>timestamp_key := Some (wall_ns now)\<rparr>,
            lastSavedTime := now, ts := Some \<lparr>physical = now, logical = 0\<rparr>\<rparr>"
          using upd un by simp
        show ?thesis unfolding s'
          using synced_save_store[OF assms(1,2)] adv_store(1)[OF ms lnow] by simp
      next
        assume a: "(\<exists>e. r1 = Inl e) \<and> s1 = s \<and> \<not> (net \<and> leaderCmp s (client s))"
        then have "s' = s" using upd by auto
        then show ?thesis using assms(1) by (simp add: adv_refl)
      qed
    next
      case nosave: False
      then have s': "s' = s\<lparr>ts := Some \<lparr>physical = now, logical = 0\<rparr>\<rparr>"
        using assms(3) prev sub1 sub2 l64 False
        by (simp add: updateTimestamp_def Let_def sdiv_pos_iff)
      have nn: "0 \<le> wn - wl" using lnow by (simp add: wl_def wn_def)
      then have "(wn - wl) div 1000000 \<le> LeaderLease s * 1000"
        using nosave by (simp add: sdiv_nonneg)
      then have "wn - wl < (LeaderLease s * 1000 + 1) * 1000000" by (rule div_ms_bound)
      then have b: "wall_ns now - saved s < (LeaderLease s * 1000 + 1) * 1000000"
        by (simp add: wl_def wn_def)
      show ?thesis unfolding s'
        using synced_store[OF assms(1,2) lnow b] adv_store(2)[OF ms lnow] by simp
    qed
  qed
qed

lemma within_mono: "within k s \<Longrightarrow> j \<le> k \<Longrightarrow> within j s"
  by (simp add: within_def)

lemma updateTimestamp_within:
  assumes "within k s" "updateTimestamp now net s = (r, s')"
  shows "within k s'"
proof -
  have "logi s' = logi s \<or> logi s' = 0"
    using assms(2)
    by (auto simp: updateTimestamp_def saveTimestamp_def Txn_def Let_def logi_def
        split: option.splits if_splits)
  then show ?thesis using assms(1) by (auto simp: within_def)
qed

lemma getRespTS_attempt_synced:
  assumes "synced d s" "within (Suc k) s" "getRespTS_attempt s = (r, s')"
  shows "synced d s' \<and> adv s s' \<and> (\<forall>T. r = Some T \<longrightarrow> ts_above s T \<and> ts_below T s')
     \<and> within k s'"
proof -
  from assms(1) obtain cur where cur: "ts s = Some cur" by (auto simp: synced_def)
  define wp where "wp = wall_ns (physical cur)"
  have ok: "clock_ok (physical cur)"
    using assms(1) cur by (simp add: synced_def phys_t_def steady_def)
  then have "0 \<le> wp" by (simp add: clock_ok_def wp_def)
  then have un: "UnixNano (physical cur) sdiv 1000000 = wp div 1000000"
    using ok by (simp add: UnixNano_wall sdiv_nonneg wp_def)
  define l where "l = logical cur + 1"
  have lc: "0 \<le> logical cur" "logical cur + 1 + int k < 2 ^ 63"
    using assms(2) cur by (simp_all add: within_def logi_def)
  have w: "int64 (logical cur + 1) = l"
    unfolding l_def using lc by (intro int64_id) simp_all
  have s': "s' = s\<lparr>ts := Some (cur\<lparr>logical := l\<rparr>)\<rparr>"
    using assms(3) cur w by (auto simp: getRespTS_attempt_def Let_def split: if_splits)
  have r: "r = Some T \<Longrightarrow> T = \<lparr>Physical = wp div 1000000, Logical = l\<rparr>" for T
    using assms(3) cur un w by (auto simp: getRespTS_attempt_def Let_def split: if_splits)
  have 1: "synced d s'" using assms(1) cur unfolding s'
    by (simp add: synced_def phys_def phys_t_def saved_def)
  have pm: "phys_ms s = wp div 1000000" "phys_ms s' = wp div 1000000"
    using cur unfolding s' by (simp_all add: phys_ms_def phys_def phys_t_def wp_def)
  have lg: "logi s = logical cur" "logi s' = l"
    using cur unfolding s' by (simp_all add: logi_def)
  have ll: "LeaderLease s' = LeaderLease s" "saved s' = saved s"
    unfolding s' by (simp_all add: saved_def)
  have 2: "adv s s'" unfolding adv_def pm lg ll by (simp add: l_def)
  have 3: "ts_above s T \<and> ts_below T s'" if "r = Some T" for T
    unfolding ts_above_def ts_below_def pm lg r[OF that] by (simp add: l_def)
  have 4: "within k s'" unfolding within_def lg l_def using lc by simp
  show ?thesis using 1 2 3 4 by blast
qed

lemma run_ticks_synced:
  "synced d s \<Longrightarrow> within k s \<Longrightarrow> list_all (\<lambda>(now, net). steady d now) t \<Longrightarrow>
     synced d (run_ticks t s) \<and> adv s (run_ticks t s) \<and> within k (run_ticks t s)"
proof (induction t arbitrary: s)
  case Nil
  then show ?case by (simp add: adv_refl)
next
  case (Cons a t)
  obtain now net where a: "a = (now, net)" by (cases a)
  obtain r s1 where u: "updateTimestamp now net s = (r, s1)" by (cases "updateTimestamp now net s")
  have c: "steady d now" using Cons.prems(3) a by simp
  from updateTimestamp_synced[OF Cons.prems(1) c u] have s1: "synced d s1" "adv s s1" by simp_all
  have w1: "within k s1" using Cons.prems(2) u by (rule updateTimestamp_within)
  have "list_all (\<lambda>(now, net). steady d now) t" using Cons.prems(3) by simp
  from Cons.IH[OF s1(1) w1 this]
  have "synced d (run_ticks t s1)" "adv s1 (run_ticks t s1)" "within k (run_ticks t s1)" by simp_all
  then show ?case using a u s1(2) by (auto intro: adv_trans)
qed

lemma getRespTS_loop_synced:
  "synced d s \<Longrightarrow> within (n + k) s \<Longrightarrow>
   list_all (list_all (\<lambda>(now, net). steady d now)) ticks \<Longrightarrow>
   getRespTS_loop n ticks s = (r, s') \<Longrightarrow>
   synced d s' \<and> adv s s' \<and> (\<forall>T. r = Some T \<longrightarrow> ts_above s T \<and> ts_below T s') \<and> within k s'"
proof (induction n arbitrary: ticks s)
  case 0
  then show ?case by (simp add: adv_refl)
next
  case (Suc n)
  obtain r1 s1 where at: "getRespTS_attempt s = (r1, s1)" by (cases "getRespTS_attempt s")
  have "within (Suc (n + k)) s" using Suc.prems(2) by simp
  from getRespTS_attempt_synced[OF Suc.prems(1) this at]
  have s1: "synced d s1" "adv s s1" "\<And>T. r1 = Some T \<Longrightarrow> ts_above s T \<and> ts_below T s1"
    and w1: "within (n + k) s1" by simp_all
  show ?case
  proof (cases r1)
    case (Some T)
    then have "r = Some T" "s' = s1" using Suc.prems(4) at by simp_all
    moreover have "within k s1" using w1 by (rule within_mono) simp
    ultimately show ?thesis using s1 Some by simp
  next
    case None
    show ?thesis
    proof (cases ticks)
      case Nil
      then have "getRespTS_loop n [] s1 = (r, s')" using Suc.prems(4) at None by simp
      from Suc.IH[OF s1(1) w1 _ this]
      have "synced d s'" "adv s1 s'" "\<forall>T. r = Some T \<longrightarrow> ts_above s1 T \<and> ts_below T s'"
        "within k s'" by simp_all
      then show ?thesis using s1(2) by (blast intro: adv_trans above_adv)
    next
      case (Cons t rest)
      have t: "list_all (\<lambda>(now, net). steady d now) t"
        and rest: "list_all (list_all (\<lambda>(now, net). steady d now)) rest"
        using Suc.prems(3) Cons by simp_all
      from run_ticks_synced[OF s1(1) w1 t]
      have s2: "synced d (run_ticks t s1)" "adv s1 (run_ticks t s1)" "within (n + k) (run_ticks t s1)"
        by simp_all
      have "getRespTS_loop n rest (run_ticks t s1) = (r, s')" using Suc.prems(4) at None Cons by simp
      from Suc.IH[OF s2(1) s2(3) rest this]
      have "synced d s'" "adv (run_ticks t s1) s'"
        "\<forall>T. r = Some T \<longrightarrow> ts_above (run_ticks t s1) T \<and> ts_below T s'" "within k s'" by simp_all
      then show ?thesis using s1(2) s2(2) by (blast intro: adv_trans above_adv)
    qed
  qed
qed

lemma synced_leader_change:
  "synced d s \<Longrightarrow> synced d (s\<lparr>client := (client s)\<lparr>leader_rev := r\<rparr>\<rparr>)"
  by (simp add: synced_def phys_def phys_t_def saved_def)

lemma adv_leader_change: "adv s (s\<lparr>client := c\<rparr>)"
  by (simp add: adv_def phys_ms_def phys_def phys_t_def saved_def logi_def)

lemma within_leader_change: "within k s \<Longrightarrow> within k (s\<lparr>client := c\<rparr>)"
  by (simp add: within_def logi_def)

lemma step_synced:
  assumes "synced d s" "within (maxRetryNum + k) s" "event_ok d e" "step e s = (out, s')"
  shows "synced d s' \<and> adv s s' \<and> sorted_wrt ts_less out
     \<and> (\<forall>T\<in>set out. ts_above s T \<and> ts_below T s') \<and> within k s'"
proof (cases e)
  case (Tick now net)
  obtain r s1 where u: "updateTimestamp now net s = (r, s1)" by (cases "updateTimestamp now net s")
  have "steady d now" using assms(3) Tick by simp
  from updateTimestamp_synced[OF assms(1) this u] updateTimestamp_within[OF assms(2) u]
  have "synced d s1" "adv s s1" "within k s1" by (auto intro: within_mono)
  then show ?thesis using assms(4) Tick u by auto
next
  case (GetTS ticks)
  obtain r s1 where g: "getRespTS_loop maxRetryNum ticks s = (r, s1)"
    by (cases "getRespTS_loop maxRetryNum ticks s")
  have "list_all (list_all (\<lambda>(now, net). steady d now)) ticks" using assms(3) GetTS by simp
  from getRespTS_loop_synced[OF assms(1,2) this g] show ?thesis
    using assms(4) GetTS g by (cases r) (auto simp: getRespTS_def)
next
  case (LeaderChange r)
  have "within k s" using assms(2) by (rule within_mono) simp
  then show ?thesis using LeaderChange assms(1,4)
    by (auto simp: synced_leader_change adv_leader_change within_leader_change)
qed

lemma run_synced:
  "synced d s \<Longrightarrow> within (maxRetryNum * length evs + k) s \<Longrightarrow> list_all (event_ok d) evs \<Longrightarrow>
   run evs s = (out, s') \<Longrightarrow>
   synced d s' \<and> adv s s' \<and> sorted_wrt ts_less out \<and> (\<forall>T\<in>set out. ts_above s T \<and> ts_below T s')
     \<and> within k s'"
proof (induction evs arbitrary: s out s')
  case Nil
  then show ?case by (simp add: adv_refl)
next
  case (Cons e evs)
  obtain o1 s1 where st: "step e s = (o1, s1)" by (cases "step e s")
  obtain o2 s2 where rn: "run evs s1 = (o2, s2)" by (cases "run evs s1")
  have eq: "out = o1 @ o2" "s' = s2" using Cons.prems(4) st rn by simp_all
  have ev: "event_ok d e" "list_all (event_ok d) evs" using Cons.prems(3) by simp_all
  have "within (maxRetryNum + (maxRetryNum * length evs + k)) s"
    using Cons.prems(2) by (simp add: add.assoc)
  from step_synced[OF Cons.prems(1) this ev(1) st]
  have a: "synced d s1" "adv s s1" "sorted_wrt ts_less o1" "\<forall>T\<in>set o1. ts_above s T \<and> ts_below T s1"
    and w1: "within (maxRetryNum * length evs + k) s1" by simp_all
  from Cons.IH[OF a(1) w1 ev(2) rn]
  have b: "synced d s2" "adv s1 s2" "sorted_wrt ts_less o2" "\<forall>T\<in>set o2. ts_above s1 T \<and> ts_below T s2"
    and w2: "within k s2" by simp_all
  have 1: "adv s s2" using a(2) b(2) by (rule adv_trans)
  have 2: "\<forall>x\<in>set o1. \<forall>y\<in>set o2. ts_less x y" using a(4) b(4) by (blast intro: below_above_less)
  have 3: "\<forall>T\<in>set (o1 @ o2). ts_above s T \<and> ts_below T s2"
    using a(2,4) b(2,4) by (auto intro: above_adv below_adv)
  show ?case unfolding eq using b(1) 1 2 3 a(3) b(3) w2 by (simp add: sorted_wrt_append)
qed

subsection \<open>The waiting loop of syncTimestamp\<close>

lemma mult_ms_le: "k \<le> (a::int) div 1000000 \<Longrightarrow> k * 1000000 \<le> a"
proof -
  assume h: "k \<le> a div 1000000"
  have "a = (a div 1000000) * 1000000 + a mod 1000000" by simp
  moreover have "0 \<le> a mod 1000000" by simp
  moreover have "k * 1000000 \<le> (a div 1000000) * 1000000" using h by simp
  ultimately show ?thesis by linarith
qed



lemma sync_wait_set: "sync_wait lease S clock = Some (Inr now) \<Longrightarrow> now \<in> set clock"
  by (induction clock) (auto simp: Let_def split: if_splits)



lemma syncTimestamp_ok:
  assumes "syncTimestamp resp clock net s = Some (Inr (), s')"
  shows "\<exists>S now. loadTimestamp resp = Inr S \<and> sync_wait (LeaderLease s) S clock = Some (Inr now)
     \<and> net \<and> leaderCmp s (client s)
     \<and> s' = s\<lparr>client := (client s)\<lparr>timestamp_key := Some (UnixNano now)\<rparr>, lastSavedTime := now,
          ts := Some \<lparr>physical = now, logical = 0\<rparr>\<rparr>"
  using assms
  by (auto simp: syncTimestamp_def saveTimestamp_def Txn_def split: sum.splits option.splits if_splits)

lemma steady_clock_ok: "list_all (steady d) clock \<Longrightarrow> list_all clock_ok clock"
  by (induction clock) (simp_all add: steady_def)

lemma syncTimestamp_synced:
  assumes "syncTimestamp resp clock net s = Some (Inr (), s')" "list_all (steady d) clock"
    "lease_ok (LeaderLease s)"
  shows "synced d s' \<and> LeaderLease s' = LeaderLease s \<and> logi s' = 0"
proof -
  from syncTimestamp_ok[OF assms(1)] obtain S now where
    w: "sync_wait (LeaderLease s) S clock = Some (Inr now)"
    and s': "s' = s\<lparr>client := (client s)\<lparr>timestamp_key := Some (UnixNano now)\<rparr>, lastSavedTime := now,
          ts := Some \<lparr>physical = now, logical = 0\<rparr>\<rparr>" by blast
  have "now \<in> set clock" using w by (rule sync_wait_set)
  then have c: "steady d now" using assms(2) by (simp add: list_all_iff)
  then have un: "UnixNano now = wall_ns now" by (simp add: UnixNano_wall steady_def)
  show ?thesis unfolding s' un using c assms(3)
    by (simp add: synced_def phys_def phys_t_def saved_def logi_def lease_ok_def)
qed

lemma within_start:
  assumes "logi s = 0" "length evs < 2 ^ 56"
  shows "within (maxRetryNum * length evs + 0) s"
proof -
  have "100 * length evs < 100 * 2 ^ 56" using assms(2) by simp
  then have "int (100 * length evs) < 2 ^ 63" by simp
  then show ?thesis using assms(1) by (simp add: within_def maxRetryNum_def)
qed

subsection \<open>The claims on the timestamp oracle\<close>

lemma below_ms: "ts_below T s \<Longrightarrow> Physical T * 1000000 \<le> phys s"
proof -
  assume "ts_below T s"
  then have "Physical T \<le> phys_ms s" by (auto simp: ts_below_def)
  then show ?thesis unfolding phys_ms_def by (rule mult_ms_le)
qed


text \<open>
  Claim C1, as amended. In a leader process started by a successful \<open>syncTimestamp\<close>,
  on a steady clock (the wall clock is never set: every reading, of \<open>syncTimestamp\<close>
  and afterwards, has the same difference \<open>d\<close> between its wall clock and its monotonic
  reading), after any sequence of updater ticks, \<open>getRespTS\<close> calls and changes of the
  leader key, the key \<^verbatim>\<open>timestamp\<close> holds a checkpoint \<open>c\<close> (nanoseconds), and every
  timestamp issued so far has a physical part (milliseconds) less than
  \<open>LeaderLease * 1000 + 1\<close> milliseconds above it. The checkpoint may lag behind the
  issued physical part: \<open>updateTimestamp\<close> saves only when more than \<open>LeaderLease\<close>
  has passed since the last save. Clock readings are taken between the Unix epoch and
  the end of the \<open>int64\<close> nanosecond range, and the run is short enough for the logical
  counter not to wrap around (fewer than \<open>2 ^ 56\<close> events).
\<close>

theorem C1_checkpoint_bound:
  assumes "syncTimestamp resp clock net s = Some (Inr (), s0)"
    and "list_all (steady d) clock" and "lease_ok (LeaderLease s)"
    and "list_all (event_ok d) evs" and "length evs < 2 ^ 56" and "run evs s0 = (out, s1)"
  shows "\<exists>c. timestamp_key (client s1) = Some c \<and>
     (\<forall>T\<in>set out. Physical T * 1000000 < c + (LeaderLease s * 1000 + 1) * 1000000)"
proof -
  from syncTimestamp_synced[OF assms(1,2,3)]
  have s0: "synced d s0" "LeaderLease s0 = LeaderLease s" "logi s0 = 0"
    by simp_all
  from run_synced[OF s0(1) within_start[OF s0(3) assms(5)] assms(4,6)]
  have s1: "synced d s1" "adv s0 s1" "\<forall>T\<in>set out. ts_below T s1" by simp_all
  have l: "LeaderLease s1 = LeaderLease s" using s1(2) s0(2) by (simp add: adv_def)
  have k: "timestamp_key (client s1) = Some (saved s1)"
    and b: "phys s1 - saved s1 < (LeaderLease s * 1000 + 1) * 1000000"
    using s1(1) l by (simp_all add: synced_def)
  have "Physical T * 1000000 < saved s1 + (LeaderLease s * 1000 + 1) * 1000000"
    if "T \<in> set out" for T
  proof -
    have "Physical T * 1000000 \<le> phys s1" using s1(3) that by (blast intro: below_ms)
    then show ?thesis using b by linarith
  qed
  then show ?thesis using k by blast
qed

text \<open>
  Witness for C1 as amended: a run of nine events after a sync at 7 s, lease 3 s, the
  wall clock 6 s ahead of the monotonic clock. The store refuses the save of the last
  tick (the leader key changed), and the bound holds.
\<close>

theorem C1_checkpoint_bound_witness:
  "syncTimestamp (Inr []) [Now 7000000000 1000000000] True tso_server0 = Some (Inr (), tso_server1)
   \<and> list_all (steady 6000000000) [Now 7000000000 1000000000]
   \<and> lease_ok (LeaderLease tso_server0)
   \<and> list_all (event_ok 6000000000) tso_events
   \<and> run tso_events tso_server1 =
       ([\<lparr>Physical = 7000, Logical = 1\<rparr>, \<lparr>Physical = 7000, Logical = 2\<rparr>,
         \<lparr>Physical = 7000, Logical = 3\<rparr>, \<lparr>Physical = 7020, Logical = 1\<rparr>,
         \<lparr>Physical = 7020, Logical = 2\<rparr>], tso_server4)
   \<and> timestamp_key (client tso_server4) = Some 7000000000
   \<and> (7020 :: int) * 1000000 < 7000000000 + (LeaderLease tso_server0 * 1000 + 1) * 1000000"
proof -
  have h1: "syncTimestamp (Inr []) [Now 7000000000 1000000000] True tso_server0
      = Some (Inr (), tso_server1)"
    by code_simp
  have h2: "list_all (steady 6000000000) [Now 7000000000 1000000000]" by code_simp
  have h3: "lease_ok (LeaderLease tso_server0)" by code_simp
  have h4: "list_all (event_ok 6000000000) tso_events" by code_simp
  have h4': "length tso_events < 2 ^ 56" by (simp add: tso_events_def)
  have h5: "run tso_events tso_server1 =
       ([\<lparr>Physical = 7000, Logical = 1\<rparr>, \<lparr>Physical = 7000, Logical = 2\<rparr>,
         \<lparr>Physical = 7000, Logical = 3\<rparr>, \<lparr>Physical = 7020, Logical = 1\<rparr>,
         \<lparr>Physical = 7020, Logical = 2\<rparr>], tso_server4)" by code_simp
  have k: "timestamp_key (client tso_server4) = Some 7000000000" by code_simp
  from C1_checkpoint_bound[OF h1 h2 h3 h4 h4' h5] obtain c where
    c: "timestamp_key (client tso_server4) = Some c"
    and b: "\<forall>T\<in>set [\<lparr>Physical = 7000, Logical = 1\<rparr>, \<lparr>Physical = 7000, Logical = 2\<rparr>,
         \<lparr>Physical = 7000, Logical = 3\<rparr>, \<lparr>Physical = 7020, Logical = 1\<rparr>,
         \<lparr>Physical = 7020, Logical = 2\<rparr>].
        Physical T * 1000000 < c + (LeaderLease tso_server0 * 1000 + 1) * 1000000"
    by blast
  have "c = 7000000000" using c k by simp
  then have "(7020 :: int) * 1000000 < 7000000000 + (LeaderLease tso_server0 * 1000 + 1) * 1000000"
    using b by simp
  then show ?thesis by (intro conjI h1 h2 h3 h4 h5 k)
qed

text \<open>
  Counterexample to C1 as stated, on a steady clock: sync at 7.000 s saves the checkpoint
  7000000000 ns; a tick 20 ms later advances the physical part without saving (20 ms is
  less than the lease); the next timestamp has physical part 7020 ms, above the
  checkpoint of 7000 ms.
\<close>

theorem C1_counterexample:
  "syncTimestamp (Inr []) [Now 7000000000 1000000000] True tso_server0 = Some (Inr (), tso_server1)
   \<and> run [Tick (Now 7020000000 1020000000) True, GetTS []] tso_server1
       = ([\<lparr>Physical = 7020, Logical = 1\<rparr>], tso_server2)
   \<and> timestamp_key (client tso_server2) = Some 7000000000
   \<and> \<not> Physical \<lparr>Physical = 7020, Logical = 1\<rparr> * 1000000 \<le> (7000000000 :: int)"
  by code_simp

text \<open>
  The bound of the lease needs the steady clock. The guard of the save in
  \<open>updateTimestamp\<close> measures the time since the last save on the monotonic clock, the
  checkpoint and the issued physical part are wall clock readings: when the wall clock
  is set forward by ten seconds after the sync at 7 s and the updater ticks 20 ms later,
  nothing is saved (20 ms is less than the lease of 3 s), and the next timestamp has
  the physical part 17020 ms with the checkpoint still at 7000 ms.
\<close>

lemma forward_step_run:
  "run [Tick (Now 17020000000 1020000000) True, GetTS []] tso_server1
       = ([\<lparr>Physical = 17020, Logical = 1\<rparr>], tso_server8)
   \<and> timestamp_key (client tso_server8) = Some 7000000000
   \<and> \<not> (17020 :: int) * 1000000 < 7000000000 + (LeaderLease tso_server1 * 1000 + 1) * 1000000"
  by code_simp

text \<open>
  Claim C2: within one leader process, a timestamp returned by \<open>getRespTS\<close> is less,
  in the lexicographic order on (physical, logical), than every timestamp generated
  after it. \<open>updateTimestamp\<close> guards this with the test \<open>since <= 0\<close> (the comment
  there: avoid the same physical time stamp), but \<open>since\<close> is \<open>now.Sub(prev.physical)\<close>,
  a difference of monotonic readings, and the physical part issued is \<open>UnixNano()\<close>,
  the wall clock. The code evaluated where the two differ: the process synced at 7 s
  issues \<open>(7000, 1)\<close>; the wall clock is set back by one second; the updater ticks
  20 ms later on the monotonic clock, with the wall clock at 6.020 s, passes the guard
  and stores this reading; the next timestamp is \<open>(6020, 1)\<close>, which is not above
  \<open>(7000, 1)\<close>.
\<close>

theorem C2_backward_step_not_increasing:
  "syncTimestamp (Inr []) [Now 7000000000 1000000000] True tso_server0 = Some (Inr (), tso_server1)
   \<and> run [GetTS []] tso_server1 = ([\<lparr>Physical = 7000, Logical = 1\<rparr>], tso_server6)
   \<and> run [Tick (Now 6020000000 1020000000) True, GetTS []] tso_server6
       = ([\<lparr>Physical = 6020, Logical = 1\<rparr>], tso_server7)
   \<and> run [GetTS [], Tick (Now 6020000000 1020000000) True, GetTS []] tso_server1
       = ([\<lparr>Physical = 7000, Logical = 1\<rparr>, \<lparr>Physical = 6020, Logical = 1\<rparr>], tso_server7)
   \<and> \<not> ts_less \<lparr>Physical = 7000, Logical = 1\<rparr> \<lparr>Physical = 6020, Logical = 1\<rparr>"
  by code_simp

text \<open>
  On a steady clock the order holds: in a leader process started by a successful
  \<open>syncTimestamp\<close>, the timestamps issued by successive \<open>getRespTS\<close> calls, interleaved
  in any way with updater ticks (also during the sleeps of \<open>getRespTS\<close>) and changes
  of the leader key, are strictly increasing.
\<close>

lemma steady_issued_strictly_increasing:
  assumes "syncTimestamp resp clock net s = Some (Inr (), s0)"
    and "list_all (steady d) clock" and "lease_ok (LeaderLease s)"
    and "list_all (event_ok d) evs" and "length evs < 2 ^ 56" and "run evs s0 = (out, s1)"
  shows "sorted_wrt ts_less out"
proof -
  from syncTimestamp_synced[OF assms(1,2,3)] have s0: "synced d s0" "logi s0 = 0" by simp_all
  from run_synced[OF s0(1) within_start[OF s0(2) assms(5)] assms(4,6)] show ?thesis by simp
qed




text \<open>
  The last part needs the steady clock: after the sync at 12 s over the checkpoint of
  5 s, when the wall clock is set back by five seconds and the updater ticks 20 ms
  later, the guard of \<open>updateTimestamp\<close> (a difference of monotonic readings) lets the
  reading through, and the next timestamp has the physical part 7020 ms, below
  \<open>5000 + 2 * 3 * 1000\<close> ms.
\<close>

lemma backward_step_after_sync:
  "run [Tick (Now 7020000000 7020000000) True, GetTS []] tso_server3
       = ([\<lparr>Physical = 7020, Logical = 1\<rparr>], tso_server9)
   \<and> \<not> 5000000000 div 1000000 + 2 * LeaderLease tso_server0 * 1000
        \<le> Physical \<lparr>Physical = 7020, Logical = 1\<rparr>"
  by code_simp

section \<open>Properties of the client's RPC worker\<close>

lemma round_trip_sent:
  "round_trip req c = (r, c') \<Longrightarrow>
     sent c' = sent c @ (case script c of WriteFails # rest \<Rightarrow> [] | _ \<Rightarrow> [req])"
  by (auto simp: round_trip_def split: list.splits io.splits)

lemma round_trip_Inr:
  "round_trip req c = (Inr rsp, c') \<Longrightarrow>
     (\<exists>rest. script c = Reply rsp # rest) \<and> sent c' = sent c @ [req]"
  by (auto simp: round_trip_def split: list.splits io.splits)

lemma getTSFromRemote_sent:
  "getTSFromRemote c n = (res, c') \<Longrightarrow>
     sent c' = sent c @ (case script c of WriteFails # rest \<Rightarrow> [] | _ \<Rightarrow> [Tso (of_nat n)])"
proof -
  assume a: "getTSFromRemote c n = (res, c')"
  obtain r c1 where rt: "round_trip (Tso (of_nat n)) c = (r, c1)"
    by (cases "round_trip (Tso (of_nat n)) c")
  have "c' = c1" using a rt
    by (auto simp: getTSFromRemote_def split: sum.splits option.splits if_splits)
  then show ?thesis using round_trip_sent[OF rt] by simp
qed

lemma getTSFromRemote_Inr:
  "getTSFromRemote c n = (Inr tss, c') \<Longrightarrow>
     (\<exists>rsp rest. script c = Reply rsp # rest \<and> resp_tso rsp = Some tss) \<and> length tss = n
     \<and> sent c' = sent c @ [Tso (of_nat n)]"
proof -
  assume a: "getTSFromRemote c n = (Inr tss, c')"
  obtain r c1 where rt: "round_trip (Tso (of_nat n)) c = (r, c1)"
    by (cases "round_trip (Tso (of_nat n)) c")
  from a rt obtain rsp where r: "r = Inr rsp" and t: "resp_tso rsp = Some tss" "length tss = n" "c' = c1"
    by (auto simp: getTSFromRemote_def split: sum.splits option.splits if_splits)
  from round_trip_Inr[OF rt[unfolded r]] t show ?thesis by auto
qed

lemma getRegionFromRemote_tso_sent:
  "getRegionFromRemote c k = (res, c') \<Longrightarrow> tso_sent c' = tso_sent c"
proof -
  assume a: "getRegionFromRemote c k = (res, c')"
  obtain r c1 where rt: "round_trip (GetMeta k) c = (r, c1)"
    by (cases "round_trip (GetMeta k) c")
  have "c' = c1" using a rt
    by (auto simp: getRegionFromRemote_def split: sum.splits option.splits)
  then show ?thesis using round_trip_sent[OF rt]
    by (auto simp: tso_sent_def split: list.splits io.splits)
qed

lemma first_loop_facts:
  "first_loop requests c ok = (rs, c1, ok1) \<Longrightarrow>
     tso_sent c1 = tso_sent c \<and> tsoRequests rs = tsoRequests requests"
proof (induction requests c ok arbitrary: rs c1 ok1 rule: first_loop.induct)
  case (1 c ok)
  then show ?case by simp
next
  case (2 r requests c ok)
  then show ?case by (auto split: prod.splits)
next
  case (3 r requests c ok)
  obtain res c0 where g: "getRegionFromRemote c (req_key r) = (res, c0)"
    by (cases "getRegionFromRemote c (req_key r)")
  note s = getRegionFromRemote_tso_sent[OF g]
  show ?case
  proof (cases res)
    case (Inl err)
    obtain rs' c' ok' where f: "first_loop requests c0 False = (rs', c', ok')"
      by (cases "first_loop requests c0 False") auto
    from "3.IH"(1)[OF g[symmetric] Inl f] "3.prems" g Inl f s show ?thesis by auto
  next
    case (Inr region)
    obtain rs' c' ok' where f: "first_loop requests c0 ok = (rs', c', ok')"
      by (cases "first_loop requests c0 ok") auto
    from "3.IH"(2)[OF g[symmetric] Inr f] "3.prems" g Inr f s show ?thesis by auto
  qed
next
  case (4 requests c ok)
  then show ?case by (auto split: prod.splits)
qed

lemma second_loop_ok:
  "i + length (tsoRequests rs) \<le> length tss \<Longrightarrow>
     \<exists>rs2. second_loop (Inr tss) i rs = Inr rs2 \<and>
       tsoRequests rs2 = map (\<lambda>(r, t). assign_ts t r) (zip (tsoRequests rs) (drop i tss))"
proof (induction rs arbitrary: i)
  case Nil
  then show ?case by simp
next
  case (Cons x rs)
  show ?case
  proof (cases x)
    case (TsoReq r)
    then have le: "Suc i + length (tsoRequests rs) \<le> length tss" and i: "i < length tss"
      using Cons.prems by simp_all
    from Cons.IH[OF le] obtain rs2 where
      rs2: "second_loop (Inr tss) (Suc i) rs = Inr rs2"
      "tsoRequests rs2 = map (\<lambda>(r, t). assign_ts t r) (zip (tsoRequests rs) (drop (Suc i) tss))"
      by blast
    have d: "drop i tss = tss ! i # drop (Suc i) tss" using i by (simp add: Cons_nth_drop_Suc)
    show ?thesis using TsoReq rs2 i unfolding d by (simp add: assign_ts_def)
  next
    case (RegionReq r)
    then have "i + length (tsoRequests rs) \<le> length tss" using Cons.prems by simp
    from Cons.IH[OF this] show ?thesis using RegionReq by auto
  next
    case OtherReq
    then have "i + length (tsoRequests rs) \<le> length tss" using Cons.prems by simp
    from Cons.IH[OF this] show ?thesis using OtherReq by auto
  qed
qed

lemma second_loop_err:
  "\<exists>rs2. second_loop (Inl e) i rs = Inr rs2 \<and>
       tsoRequests rs2 = map (\<lambda>r. r\<lparr>tso_done := tso_done r @ [Some e]\<rparr>) (tsoRequests rs)"
proof (induction rs arbitrary: i)
  case Nil
  then show ?case by simp
next
  case (Cons x rs)
  from Cons.IH[of "i + 1"] Cons.IH[of i] show ?case by (cases x) auto
qed

lemma handleRequests_unfold:
  assumes "first_loop requests c True = (rs1, c1, ok1)"
    and "getTSFromRemote c1 (length (tsoRequests requests)) = (res, c2)"
  shows "handleRequests requests c =
     (case second_loop res 0 rs1 of
        Inl p \<Rightarrow> Inl p
      | Inr rs' \<Rightarrow> Inr (case res of Inl err \<Rightarrow> False | Inr tss \<Rightarrow> ok1, rs', c2))"
  using assms by (simp add: handleRequests_def)

text \<open>
  Claim C4, as amended. \<open>handleRequests\<close> never panics, and for every batch it makes
  exactly one \<open>Tso\<close> round trip, whose number is the count of the timestamp requests of
  the batch, whether or not the batch holds a timestamp request: unless the write of
  that round trip fails, one \<open>TsoRequest\<close> is written to the connection per batch. A
  batch of region requests alone sends a \<open>TsoRequest\<close> with number 0. (\<open>c1\<close> is the
  connection as the first loop leaves it.)
\<close>

theorem C4_one_tso_request_per_batch:
  assumes "first_loop requests c True = (rs1, c1, ok1)"
  shows "\<exists>ok rs2 c2. handleRequests requests c = Inr (ok, rs2, c2) \<and>
     tso_sent c2 = tso_sent c @
       (case script c1 of WriteFails # rest \<Rightarrow> []
        | _ \<Rightarrow> [Tso (of_nat (length (tsoRequests requests)))])"
proof -
  from first_loop_facts[OF assms] have f: "tso_sent c1 = tso_sent c" "tsoRequests rs1 = tsoRequests requests"
    by simp_all
  obtain res c2 where g: "getTSFromRemote c1 (length (tsoRequests requests)) = (res, c2)"
    by (cases "getTSFromRemote c1 (length (tsoRequests requests))")
  from getTSFromRemote_sent[OF g]
  have s: "tso_sent c2 = tso_sent c @
       (case script c1 of WriteFails # rest \<Rightarrow> []
        | _ \<Rightarrow> [Tso (of_nat (length (tsoRequests requests)))])"
    using f(1) by (auto simp: tso_sent_def split: list.splits io.splits)
  have "\<exists>rs2. second_loop res 0 rs1 = Inr rs2"
  proof (cases res)
    case (Inl e)
    then show ?thesis using second_loop_err[of e 0 rs1] by blast
  next
    case (Inr tss)
    then have "length tss = length (tsoRequests requests)" using getTSFromRemote_Inr g by blast
    then have "0 + length (tsoRequests rs1) \<le> length tss" using f(2) by simp
    from second_loop_ok[OF this] show ?thesis using Inr by blast
  qed
  then obtain rs2 where "second_loop res 0 rs1 = Inr rs2" by blast
  then have "handleRequests requests c = Inr (case res of Inl err \<Rightarrow> False | Inr tss \<Rightarrow> ok1, rs2, c2)"
    using handleRequests_unfold[OF assms g] by simp
  then show ?thesis using s by blast
qed

text \<open>Witness for C4 as amended: a batch of one region request.\<close>

theorem C4_one_tso_request_per_batch_witness:
  "first_loop c4_batch c4_conn True = (c4_batch_done, c4_conn1, True)
   \<and> handleRequests c4_batch c4_conn = Inr (True, c4_batch_done, c4_conn2)
   \<and> tsoRequests c4_batch = []
   \<and> tso_sent c4_conn2 = tso_sent c4_conn @ [Tso 0]"
proof -
  have h: "first_loop c4_batch c4_conn True = (c4_batch_done, c4_conn1, True)"
    by (simp add: c4_batch_def c4_conn_def c4_batch_done_def c4_conn1_def getRegionFromRemote_def
        round_trip_def)
  have r: "handleRequests c4_batch c4_conn = Inr (True, c4_batch_done, c4_conn2)"
    unfolding handleRequests_def h
    by (simp add: c4_batch_def c4_conn1_def c4_conn2_def c4_batch_done_def getTSFromRemote_def
        round_trip_def)
  have t: "tsoRequests c4_batch = []" by (simp add: c4_batch_def)
  from C4_one_tso_request_per_batch[OF h] obtain ok rs2 c2 where
    e: "handleRequests c4_batch c4_conn = Inr (ok, rs2, c2)"
    and s: "tso_sent c2 = tso_sent c4_conn @
       (case script c4_conn1 of WriteFails # rest \<Rightarrow> []
        | _ \<Rightarrow> [Tso (of_nat (length (tsoRequests c4_batch)))])"
    by blast
  have "c2 = c4_conn2" using e r by simp
  then have "tso_sent c4_conn2 = tso_sent c4_conn @ [Tso 0]"
    using s t by (simp add: c4_conn1_def)
  then show ?thesis by (intro conjI h r t)
qed

text \<open>
  Counterexample to C4 as stated: the batch holds one region request and no timestamp
  request, the connection is fresh, and after \<open>handleRequests\<close> a \<open>TsoRequest\<close> with
  number 0 has been sent on it.
\<close>

theorem C4_counterexample:
  "tsoRequests c4_batch = []
   \<and> handleRequests c4_batch c4_conn = Inr (True, c4_batch_done, c4_conn2)
   \<and> sent c4_conn = [] \<and> sent c4_conn2 = [GetMeta [97], Tso 0]"
  by (simp add: handleRequests_def c4_batch_def c4_conn_def c4_batch_done_def c4_conn2_def
      getRegionFromRemote_def getTSFromRemote_def round_trip_def)

text \<open>
  Claim C5. For a batch with \<open>n\<close> timestamp requests, when \<open>getTSFromRemote\<close> succeeds
  the response read carried exactly \<open>n\<close> timestamps, one \<open>TsoRequest\<close> was written, with
  number \<open>uint32(n)\<close> (which is \<open>n\<close> below \<open>2 ^ 32\<close>), and \<open>handleRequests\<close> gives the
  \<open>i\<close>-th timestamp to the \<open>i\<close>-th timestamp request of the batch, in batch order, and
  completes it with nil, for every \<open>i < n\<close>.
\<close>

theorem C5_batch_pairing:
  assumes "first_loop requests c True = (rs1, c1, ok1)"
    and "getTSFromRemote c1 (length (tsoRequests requests)) = (Inr tss, c2)"
  shows "length tss = length (tsoRequests requests)
     \<and> (\<exists>rsp rest. script c1 = Reply rsp # rest \<and> resp_tso rsp = Some tss)
     \<and> sent c2 = sent c1 @ [Tso (of_nat (length (tsoRequests requests)))]
     \<and> (length (tsoRequests requests) < 2 ^ 32 \<longrightarrow>
          unat (of_nat (length (tsoRequests requests)) :: 32 word) = length (tsoRequests requests))
     \<and> (\<exists>rs2. handleRequests requests c = Inr (ok1, rs2, c2)
          \<and> length (tsoRequests rs2) = length (tsoRequests requests)
          \<and> (\<forall>i < length (tsoRequests requests).
                tsoRequests rs2 ! i = (tsoRequests requests ! i)
                  \<lparr>req_physical := Physical (tss ! i), req_logical := Logical (tss ! i),
                   tso_done := tso_done (tsoRequests requests ! i) @ [None]\<rparr>))"
proof -
  from first_loop_facts[OF assms(1)] have f: "tsoRequests rs1 = tsoRequests requests" by simp
  from getTSFromRemote_Inr[OF assms(2)]
  have g: "\<exists>rsp rest. script c1 = Reply rsp # rest \<and> resp_tso rsp = Some tss"
    "length tss = length (tsoRequests requests)"
    "sent c2 = sent c1 @ [Tso (of_nat (length (tsoRequests requests)))]" by simp_all
  have u: "unat (of_nat (length (tsoRequests requests)) :: 32 word) = length (tsoRequests requests)"
    if "length (tsoRequests requests) < 2 ^ 32"
    using that by (simp add: unat_of_nat)
  have "0 + length (tsoRequests rs1) \<le> length tss" using f g(2) by simp
  from second_loop_ok[OF this] obtain rs2 where
    rs2: "second_loop (Inr tss) 0 rs1 = Inr rs2"
    "tsoRequests rs2 = map (\<lambda>(r, t). assign_ts t r) (zip (tsoRequests requests) tss)"
    using f by auto
  have h: "handleRequests requests c = Inr (ok1, rs2, c2)"
    using handleRequests_unfold[OF assms] rs2(1) by simp
  have len: "length (tsoRequests rs2) = length (tsoRequests requests)"
    using rs2(2) g(2) by simp
  have nth: "tsoRequests rs2 ! i = (tsoRequests requests ! i)
                  \<lparr>req_physical := Physical (tss ! i), req_logical := Logical (tss ! i),
                   tso_done := tso_done (tsoRequests requests ! i) @ [None]\<rparr>"
    if "i < length (tsoRequests requests)" for i
    using that g(2) unfolding rs2(2) by (simp add: assign_ts_def)
  show ?thesis using g u h len nth by blast
qed

text \<open>Witness for C5: two timestamp requests around a region request.\<close>

theorem C5_batch_pairing_witness:
  "first_loop c5_batch c5_conn True = (c5_batch1, c5_conn1, True)
   \<and> getTSFromRemote c5_conn1 (length (tsoRequests c5_batch))
       = (Inr [\<lparr>Physical = 7000, Logical = 1\<rparr>, \<lparr>Physical = 7000, Logical = 2\<rparr>], c5_conn2)
   \<and> handleRequests c5_batch c5_conn = Inr (True, c5_batch2, c5_conn2)
   \<and> sent c5_conn2 = sent c5_conn1 @ [Tso 2]"
proof -
  have h1: "first_loop c5_batch c5_conn True = (c5_batch1, c5_conn1, True)"
    by (simp add: c5_batch_def c5_conn_def c5_batch1_def c5_conn1_def getRegionFromRemote_def
        round_trip_def)
  have n: "length (tsoRequests c5_batch) = 2" by (simp add: c5_batch_def)
  have h2: "getTSFromRemote c5_conn1 (length (tsoRequests c5_batch))
       = (Inr [\<lparr>Physical = 7000, Logical = 1\<rparr>, \<lparr>Physical = 7000, Logical = 2\<rparr>], c5_conn2)"
    unfolding n by (simp add: c5_conn1_def c5_conn2_def getTSFromRemote_def round_trip_def)
  have r: "handleRequests c5_batch c5_conn = Inr (True, c5_batch2, c5_conn2)"
    unfolding handleRequests_def h1 prod.case h2
    by (simp add: c5_batch1_def c5_batch2_def)
  note c = C5_batch_pairing[OF h1 h2]
  have "sent c5_conn2 = sent c5_conn1 @ [Tso 2]"
    using c[THEN conjunct2, THEN conjunct2, THEN conjunct1] unfolding n by simp
  then show ?thesis by (intro conjI h1 h2 r)
qed

subsection \<open>Stopping the worker\<close>

lemma drain_all: "drain (length q) err q = Some (map (fail_request err) q, [])"
  by (induction q) simp_all

lemma completions_fail_request:
  "completions (fail_request err r) = (if r = OtherReq then [] else completions r @ [err])"
  by (cases r) simp_all

text \<open>
  Claim C9. \<open>stop(err)\<close> always returns, unless the quit channel was closed before (then
  closing it again panics). When it returns, the quit channel is closed, the worker has
  exited, the queue is empty, and every request that was still in the queue when the
  worker exited has received exactly one more completion, carrying \<open>err\<close>. (No request
  is submitted while \<open>stop\<close> runs, and a completion channel takes the value sent.)
\<close>

theorem C9_stop_drains_queue:
  "stop err taken w =
     (if quit_closed w then Some (Inl Panic)
      else Some (Inr (map (fail_request err) (drop taken (requests_chan w)),
                      w\<lparr>quit_closed := True, worker_exited := True, requests_chan := []\<rparr>)))
   \<and> map completions (map (fail_request err) (drop taken (requests_chan w))) =
         map (\<lambda>r. if r = OtherReq then [] else completions r @ [err]) (drop taken (requests_chan w))"
  by (simp add: stop_def Let_def drain_all completions_fail_request)

text \<open>
  Witness for C9: three requests are queued, the worker takes the first before it exits,
  \<open>stop\<close> fails the other two with the sentinel.
\<close>

theorem C9_stop_drains_queue_witness:
  "stop (Some Stopped) 1 c9_worker = Some (Inr (c9_drained, c9_worker'))
   \<and> quit_closed c9_worker' \<and> worker_exited c9_worker' \<and> requests_chan c9_worker' = []
   \<and> map completions c9_drained = [[Some Stopped], [Some Stopped]]"
proof -
  have q: "\<not> quit_closed c9_worker" by (simp add: c9_worker_def)
  have d: "map (fail_request (Some Stopped)) (drop 1 (requests_chan c9_worker)) = c9_drained"
    by (simp add: c9_worker_def c5_batch_def c9_drained_def)
  have w: "c9_worker\<lparr>quit_closed := True, worker_exited := True, requests_chan := []\<rparr> = c9_worker'"
    by (simp add: c9_worker_def c9_worker'_def)
  note c = C9_stop_drains_queue[of "Some Stopped" 1 c9_worker]
  have h: "stop (Some Stopped) 1 c9_worker = Some (Inr (c9_drained, c9_worker'))"
    using c[THEN conjunct1] q d w by simp
  have m: "map completions c9_drained = [[Some Stopped], [Some Stopped]]"
    by (simp add: c9_drained_def)
  show ?thesis by (intro conjI h m) (simp_all add: c9_worker'_def)
qed

section \<open>Properties of the cluster worker\<close>

lemma set_kv_same: "set_kv (cluster_kv c) c = c"
  by (simp add: set_kv_def cluster_kv_def)

text \<open>
  Claim C6, as amended. When the leader comparison fails, \<open>postJob\<close>,
  \<open>updateJobStatus\<close> and \<open>popJob\<close> fail with an error and leave the store as it was.
  \<open>getJob\<close> makes no leader comparison: it answers the job with the least id, leader or
  not (the worker asks \<open>IsLeader\<close> before it calls \<open>getJob\<close>).
\<close>

theorem C6_job_store_leader_gate:
  assumes "\<not> leaderCmp (cluster_s c) (cluster_kv c)"
  shows "postJob (Inr jobID) True True req c = (Inl PostJobFail, c)
     \<and> updateJobStatus True True (Some job) status c
          = (Inl PopJobFailed, Some (job\<lparr>Status := Some status\<rparr>), c)
     \<and> popJob True jobp c = (Inl PopJobFailed, c)
     \<and> getJob True c = Inr (map_option snd
          (least_entry (filter (\<lambda>e. 0 \<le> fst e \<and> fst e < MaxUint64) (jobs (cluster_kv c)))))"
proof -
  have 1: "postJob (Inr jobID) True True req c = (Inl PostJobFail, c)"
    using assms by (simp add: postJob_def Txn_def set_kv_same)
  have 2: "updateJobStatus True True (Some job) status c
          = (Inl PopJobFailed, Some (job\<lparr>Status := Some status\<rparr>), c)"
    using assms by (simp add: updateJobStatus_def Txn_def set_kv_same)
  have 3: "popJob True jobp c = (Inl PopJobFailed, c)"
    using assms by (simp add: popJob_def Txn_def set_kv_same)
  have 4: "getJob True c = Inr (map_option snd
          (least_entry (filter (\<lambda>e. 0 \<le> fst e \<and> fst e < MaxUint64) (jobs (cluster_kv c)))))"
    by (simp add: getJob_def getProtoMsg_def split: option.splits)
  show ?thesis using 1 2 3 4 by simp
qed

text \<open>Witness for C6 as amended: a store whose leader key belongs to another server.\<close>

theorem C6_job_store_leader_gate_witness:
  "\<not> leaderCmp (cluster_s lost_cluster) (cluster_kv lost_cluster)
   \<and> postJob (Inr 6) True True \<lparr>header_peer = None, header_region_id = 1, AdminRequest_of = None, StatusRequest_of = None\<rparr>
        lost_cluster = (Inl PostJobFail, lost_cluster)
   \<and> updateJobStatus True True (Some job1) Running lost_cluster
        = (Inl PopJobFailed, Some (job1\<lparr>Status := Some Running\<rparr>), lost_cluster)
   \<and> popJob True (Some job1) lost_cluster = (Inl PopJobFailed, lost_cluster)"
proof -
  have h: "\<not> leaderCmp (cluster_s lost_cluster) (cluster_kv lost_cluster)"
    by (simp add: leaderCmp_def lost_cluster_def cluster_kv_def)
  note c = C6_job_store_leader_gate[OF h, of 6
      "\<lparr>header_peer = None, header_region_id = 1, AdminRequest_of = None, StatusRequest_of = None\<rparr>" job1 Running "Some job1"]
  show ?thesis using h c by simp
qed

text \<open>
  Counterexample to C6 as stated: the leader comparison fails on this store, and
  \<open>getJob\<close> returns job 5 with no error.
\<close>

theorem C6_counterexample:
  "\<not> leaderCmp (cluster_s lost_cluster) (cluster_kv lost_cluster)
   \<and> getJob True lost_cluster = Inr (Some job1)"
  by (simp add: leaderCmp_def getJob_def getProtoMsg_def lost_cluster_def cluster_kv_def
      MaxUint64_def job1_def)

text \<open>
  Claim C7 fails on the code. On a pulse, when the server is leader and \<open>getJob\<close>
  returns an error (here: the call of the store client fails), the error is logged and
  the turn goes on to \<open>handleJob\<close> with a nil job, which panics: with \<open>Pending\<close> as the
  default of \<open>GetStatus\<close> in \<open>updateJobStatus\<close> (the assignment to \<open>job.Status\<close>), with
  any other default at \<open>req.AdminRequest\<close>. This holds for every handler, every default
  and every state of the cluster.
\<close>

theorem C7_nil_job_panics:
  "onJobWorker_pulse dflt hcp hsp True False marshal_ok net pop_net c = (Inl Panic, True, c)"
proof -
  have g: "getJob False c = Inl EtcdError" by (simp add: getJob_def getProtoMsg_def)
  have h: "handleJob dflt hcp hsp marshal_ok net None c = (Inl Panic, c)"
    by (cases dflt) (simp_all add: handleJob_def GetStatus_def updateJobStatus_def GetRequest_def)
  show ?thesis by (simp add: onJobWorker_pulse_def g h)
qed

subsection \<open>Placing a new peer\<close>

lemma scan_peers_fst:
  "fst (scan_peers sid nid peers en) = (\<exists>p\<in>set peers. store_id p = sid)"
  by (induction peers arbitrary: en) auto

lemma scan_peers_snd:
  "\<not> (\<exists>p\<in>set peers. store_id p = sid) \<Longrightarrow>
     snd (scan_peers sid nid peers en) = (en \<or> (\<exists>p\<in>set peers. node_id p = nid))"
  by (induction peers arbitrary: en) auto

lemma scan_peers_class:
  "scan_peers (StoreId st) (NodeId st) (Peers region) False = (es, en) \<Longrightarrow>
     es = on_store region st \<and> (\<not> es \<longrightarrow> en = on_node region st)"
  using scan_peers_fst[of "StoreId st" "NodeId st" "Peers region" False]
    scan_peers_snd[of "Peers region" "StoreId st" "NodeId st" False]
  by (auto simp: on_store_def on_node_def)

lemma classify_stores_eq:
  "classify_stores region sts = (filter (best_store region) sts, filter (match_store region) sts)"
proof (induction sts)
  case Nil
  then show ?case by simp
next
  case (Cons st sts)
  obtain es en where s: "scan_peers (StoreId st) (NodeId st) (Peers region) False = (es, en)"
    by (cases "scan_peers (StoreId st) (NodeId st) (Peers region) False")
  from scan_peers_class[OF s] show ?case using Cons s
    by (auto simp: best_store_def match_store_def)
qed

lemma no_store_iff:
  "filter (best_store region) sts = [] \<and> filter (match_store region) sts = []
     \<longleftrightarrow> (\<forall>st\<in>set sts. on_store region st)"
  by (auto simp: filter_empty_conv best_store_def match_store_def)

lemma chooseStore_mem:
  "bestStores \<noteq> [] \<or> matchStores \<noteq> [] \<Longrightarrow>
     \<exists>st. chooseStore rnd bestStores matchStores = Inr st \<and>
       st \<in> set (if bestStores \<noteq> [] then bestStores else matchStores)"
  by (auto simp: chooseStore_def Intn_def)

text \<open>
  Claim C8. Once the peer id is allocated, \<open>handleAddPeerReq\<close> fails with the
  no-placement error exactly when every store hosts a peer of the region; otherwise it
  returns a peer with the allocated id, placed on a store of the table that hosts no peer
  of the region: a best store whenever the table has one, else a match store. The store id
  of the new peer is none of the store ids of the peers of the region, so adding the peer
  keeps the store ids of the region distinct.
\<close>

theorem C8_add_peer_placement:
  "(handleAddPeerReq (Inr peerID) rnd region c = Inl NoStoreToAddPeer
      \<longleftrightarrow> (\<forall>st\<in>set (stores c). on_store region st))
   \<and> ((\<exists>st\<in>set (stores c). \<not> on_store region st) \<longrightarrow>
        (\<exists>st\<in>set (stores c).
           handleAddPeerReq (Inr peerID) rnd region c
             = Inr \<lparr>peer_id = peerID, node_id = NodeId st, store_id = StoreId st\<rparr>
           \<and> \<not> on_store region st
           \<and> (if \<exists>b\<in>set (stores c). best_store region b then best_store region st
               else match_store region st)
           \<and> StoreId st \<notin> store_id ` set (Peers region)
           \<and> (distinct (map store_id (Peers region)) \<longrightarrow>
                distinct (map store_id (Peers region @
                  [\<lparr>peer_id = peerID, node_id = NodeId st, store_id = StoreId st\<rparr>])))))"
proof -
  define best where "best = filter (best_store region) (stores c)"
  define mtch where "mtch = filter (match_store region) (stores c)"
  have cl: "classify_stores region (stores c) = (best, mtch)"
    by (simp add: classify_stores_eq best_def mtch_def)
  have none: "best = [] \<and> mtch = [] \<longleftrightarrow> (\<forall>st\<in>set (stores c). on_store region st)"
    unfolding best_def mtch_def by (rule no_store_iff)
  have bex: "best \<noteq> [] \<longleftrightarrow> (\<exists>b\<in>set (stores c). best_store region b)"
    unfolding best_def by (auto simp: filter_empty_conv)
  show ?thesis
  proof (cases "best = [] \<and> mtch = []")
    case True
    then have "handleAddPeerReq (Inr peerID) rnd region c = Inl NoStoreToAddPeer"
      by (simp add: handleAddPeerReq_def cl)
    then show ?thesis using True none by auto
  next
    case False
    then have "best \<noteq> [] \<or> mtch \<noteq> []" by simp
    from chooseStore_mem[OF this, of rnd] obtain st where
      ch: "chooseStore rnd best mtch = Inr st" and mem: "st \<in> set (if best \<noteq> [] then best else mtch)"
      by blast
    have r: "handleAddPeerReq (Inr peerID) rnd region c
        = Inr \<lparr>peer_id = peerID, node_id = NodeId st, store_id = StoreId st\<rparr>"
      using False ch by (auto simp add: handleAddPeerReq_def cl)
    have st: "st \<in> set (stores c)" using mem by (auto simp: best_def mtch_def split: if_splits)
    have cls: "if \<exists>b\<in>set (stores c). best_store region b then best_store region st
               else match_store region st"
      using mem bex by (auto simp: best_def mtch_def split: if_splits)
    then have nos: "\<not> on_store region st"
      by (auto simp: best_store_def match_store_def split: if_splits)
    then have notin: "StoreId st \<notin> store_id ` set (Peers region)"
      by (auto simp: on_store_def)
    have d: "distinct (map store_id (Peers region)) \<longrightarrow>
        distinct (map store_id (Peers region @
          [\<lparr>peer_id = peerID, node_id = NodeId st, store_id = StoreId st\<rparr>]))"
      using notin by simp
    have 1: "handleAddPeerReq (Inr peerID) rnd region c = Inl NoStoreToAddPeer
      \<longleftrightarrow> (\<forall>st\<in>set (stores c). on_store region st)"
      using r False none by simp
    have 2: "\<exists>st\<in>set (stores c).
           handleAddPeerReq (Inr peerID) rnd region c
             = Inr \<lparr>peer_id = peerID, node_id = NodeId st, store_id = StoreId st\<rparr>
           \<and> \<not> on_store region st
           \<and> (if \<exists>b\<in>set (stores c). best_store region b then best_store region st
               else match_store region st)
           \<and> StoreId st \<notin> store_id ` set (Peers region)
           \<and> (distinct (map store_id (Peers region)) \<longrightarrow>
                distinct (map store_id (Peers region @
                  [\<lparr>peer_id = peerID, node_id = NodeId st, store_id = StoreId st\<rparr>])))"
      by (rule bexI[OF _ st]) (intro conjI r nos cls notin d)
    show ?thesis using 1 2 by blast
  qed
qed

text \<open>
  Witness for C8: the region has a peer on store 1 of node 1; store 2 is on node 1 (a
  match store), store 3 on node 2 (a best store); the new peer goes to store 3.
\<close>

theorem C8_add_peer_placement_witness:
  "handleAddPeerReq (Inr 10) 7 c8_region c8_cluster
     = Inr \<lparr>peer_id = 10, node_id = 2, store_id = 3\<rparr>
   \<and> handleAddPeerReq (Inr 10) 7 c8_region c8_cluster \<noteq> Inl NoStoreToAddPeer
   \<and> \<not> on_store c8_region \<lparr>StoreId = 3, NodeId = 2\<rparr>
   \<and> \<not> on_store c8_region \<lparr>StoreId = 2, NodeId = 1\<rparr>
   \<and> best_store c8_region \<lparr>StoreId = 3, NodeId = 2\<rparr>
   \<and> match_store c8_region \<lparr>StoreId = 2, NodeId = 1\<rparr>
   \<and> on_store c8_region \<lparr>StoreId = 1, NodeId = 1\<rparr>"
proof -
  have s: "\<lparr>StoreId = 3, NodeId = 2\<rparr> \<in> set (stores c8_cluster)" by (simp add: c8_cluster_def)
  have n3: "\<not> on_store c8_region \<lparr>StoreId = 3, NodeId = 2\<rparr>"
    by (simp add: on_store_def c8_region_def)
  have n2: "\<not> on_store c8_region \<lparr>StoreId = 2, NodeId = 1\<rparr>"
    by (simp add: on_store_def c8_region_def)
  have b3: "best_store c8_region \<lparr>StoreId = 3, NodeId = 2\<rparr>"
    by (simp add: best_store_def on_store_def on_node_def c8_region_def)
  have m2: "match_store c8_region \<lparr>StoreId = 2, NodeId = 1\<rparr>"
    by (simp add: match_store_def on_store_def on_node_def c8_region_def)
  have o1: "on_store c8_region \<lparr>StoreId = 1, NodeId = 1\<rparr>"
    by (simp add: on_store_def c8_region_def)
  have ex: "\<not> (\<forall>st\<in>set (stores c8_cluster). on_store c8_region st)" using s n3 by blast
  note c = C8_add_peer_placement[of 10 7 c8_region c8_cluster]
  have ne: "handleAddPeerReq (Inr 10) 7 c8_region c8_cluster \<noteq> Inl NoStoreToAddPeer"
    using c[THEN conjunct1] ex by simp
  have r: "handleAddPeerReq (Inr 10) 7 c8_region c8_cluster
     = Inr \<lparr>peer_id = 10, node_id = 2, store_id = 3\<rparr>"
    by (simp add: handleAddPeerReq_def c8_cluster_def c8_region_def chooseStore_def Intn_def)
  show ?thesis by (intro conjI r ne n3 n2 b3 m2 o1)
qed

subsection \<open>Sending a command\<close>

text \<open>
  Claim C10. In any turn of the loop of \<open>sendRaftCommand\<close>, when \<open>callCommand\<close> yields a
  response whose header carries a \<open>NotLeader\<close> error without a leader, and asking every
  other peer of the region finds no leader, the loop returns that response with a nil
  error, whatever the number of turns left, and leaves the request as it was. So does
  \<open>sendRaftCommand\<close> when this happens at its first turn, and \<open>handleChangePeer\<close> then
  goes on to \<open>checkChangePeerOK\<close> with that request.
\<close>

theorem C10_not_leader_without_hint:
  assumes "callCommand request net = (Inr resp, net1)"
    and "resp_Header resp = Some hdr" and "hdr_Error hdr = Some err"
    and "err_NotLeader err = Some nl" and "nl_leader nl = None"
    and "probe_peers (region_id region) originPeer (Peers region) net1 = (None, net2)"
  shows "send_loop (Suc n) request (Some region) originPeer net = (Inr resp, request, net2)
     \<and> (originPeer = header_peer request \<longrightarrow>
          sendRaftCommand request (Some region) net = (Inr resp, request, net2))
     \<and> (originPeer = header_peer request \<and> Request j = Some request
          \<and> AdminRequest_of request = Some adm \<and> ChangePeer_req adm = Some cpr
          \<and> cpr_Region cpr = Some region \<longrightarrow>
          handleChangePeer marshal_ok enet (Some j) c net =
            (case checkChangePeerOK request net2 of
               (Inl e, net3) \<Rightarrow> (Inl e, c, net3)
             | (Inr None, net3) \<Rightarrow> (Inr (), c, net3)
             | (Inr (Some changePeer), net3) \<Rightarrow>
                 (case update_region marshal_ok enet changePeer c of (r, c') \<Rightarrow> (r, c', net3))))"
proof -
  have 1: "send_loop (Suc n) request (Some region) originPeer net = (Inr resp, request, net2)" for n
    using assms by simp
  have 2: "sendRaftCommand request (Some region) net = (Inr resp, request, net2)"
    if "originPeer = header_peer request"
    unfolding sendRaftCommand_def maxSendRetry_def
    using 1[of 9] that by (simp add: eval_nat_numeral)
  have 3: "handleChangePeer marshal_ok enet (Some j) c net =
            (case checkChangePeerOK request net2 of
               (Inl e, net3) \<Rightarrow> (Inl e, c, net3)
             | (Inr None, net3) \<Rightarrow> (Inr (), c, net3)
             | (Inr (Some changePeer), net3) \<Rightarrow>
                 (case update_region marshal_ok enet changePeer c of (r, c') \<Rightarrow> (r, c', net3)))"
    if "originPeer = header_peer request \<and> Request j = Some request
          \<and> AdminRequest_of request = Some adm \<and> ChangePeer_req adm = Some cpr
          \<and> cpr_Region cpr = Some region"
    using that 2 assms(2,3) by (simp add: handleChangePeer_def)
  show ?thesis using 1 2 3 by blast
qed

text \<open>
  Witness for C10: peer 1 answers \<open>NotLeader\<close> without a leader, the call to peer 2
  fails and peer 3 knows no leader.
\<close>

theorem C10_not_leader_without_hint_witness:
  "callCommand c10_request c10_net = (Inr c10_resp, c10_net1)
   \<and> probe_peers (region_id c10_region) (header_peer c10_request) (Peers c10_region) c10_net1
        = (None, c10_net2)
   \<and> sendRaftCommand c10_request (Some c10_region) c10_net = (Inr c10_resp, c10_request, c10_net2)"
proof -
  have h1: "callCommand c10_request c10_net = (Inr c10_resp, c10_net1)"
    by (simp add: callCommand_def c10_net_def c10_net1_def)
  have h2: "resp_Header c10_resp = Some \<lparr>hdr_Error = Some \<lparr>err_NotLeader = Some \<lparr>nl_leader = None\<rparr>,
       err_RegionNotFound = False\<rparr>\<rparr>" by (simp add: c10_resp_def)
  have h3: "hdr_Error \<lparr>hdr_Error = Some \<lparr>err_NotLeader = Some \<lparr>nl_leader = None\<rparr>,
       err_RegionNotFound = False\<rparr>\<rparr> = Some \<lparr>err_NotLeader = Some \<lparr>nl_leader = None\<rparr>,
       err_RegionNotFound = False\<rparr>" by simp
  have h4: "err_NotLeader \<lparr>err_NotLeader = Some \<lparr>nl_leader = None\<rparr>, err_RegionNotFound = False\<rparr>
      = Some \<lparr>nl_leader = None\<rparr>" by simp
  have h5: "nl_leader \<lparr>nl_leader = None\<rparr> = None" by simp
  have h6: "probe_peers (region_id c10_region) (header_peer c10_request) (Peers c10_region) c10_net1
        = (None, c10_net2)"
    by (simp add: c10_region_def c10_request_def c10_net1_def c10_net2_def GetPeerId_def
        getRegionLeader_def callCommand_def c10_no_leader_def)
  note c = C10_not_leader_without_hint[OF h1 h2 h3 h4 h5 h6, of 9]
  have r: "sendRaftCommand c10_request (Some c10_region) c10_net = (Inr c10_resp, c10_request, c10_net2)"
    using c[THEN conjunct2, THEN conjunct1] by simp
  show ?thesis by (intro conjI h1 h6 r)
qed

end
